theory Spec2Isabelle
  imports Complex_Main "HOL-Library.AList"
begin

section \<open>Data model of pkg/remotewrite/remotewrite.go\<close>

subsection \<open>Time\<close>

text \<open>
  A Go \<open>time.Time\<close> is an instant; it is represented here by the number of nanoseconds
  since Go's zero time (January 1, year 1, 00:00:00 UTC), an unbounded integer. The zero
  value \<open>time.Time{}\<close> is 0. The monotonic clock reading is not represented: \<open>Truncate\<close>
  strips it and \<open>Latest\<close> only ever holds truncated times. A \<open>time.Duration\<close> is a number
  of nanoseconds.
\<close>

type_synonym Time = int
type_synonym Duration = int

definition Millisecond :: Duration where
  "Millisecond = 1000000"

text \<open>\<open>t.Truncate(d)\<close>: \<open>t\<close> rounded down to a multiple of \<open>d\<close> since the zero time;
  \<open>t\<close> itself when \<open>d <= 0\<close>.\<close>

definition Truncate :: "Time \<Rightarrow> Duration \<Rightarrow> Time" where
  "Truncate t d = (if d \<le> 0 then t else t - t mod d)"

definition After :: "Time \<Rightarrow> Time \<Rightarrow> bool" where
  "After t u = (u < t)"

text \<open>The Unix epoch, in nanoseconds since the zero time (62135596800 seconds).\<close>

definition unixEpoch :: Time where
  "unixEpoch = 62135596800 * 1000000000"

text \<open>Go's \<open>int64\<close> arithmetic wraps around: the value of an integer expression is the
  integer in \<open>[-2^63, 2^63)\<close> congruent to it modulo \<open>2^64\<close>.\<close>

definition wrap64 :: "int \<Rightarrow> int" where
  "wrap64 x = (x + 2 ^ 63) mod 2 ^ 64 - 2 ^ 63"

text \<open>\<open>t.UnixMilli()\<close> is \<open>t.unixSec()*1e3 + int64(t.nsec())/1e6\<close> in \<open>int64\<close>: the number of
  milliseconds since the Unix epoch, rounded down, wrapped to 64 bits.\<close>

definition UnixMilli :: "Time \<Rightarrow> int" where
  "UnixMilli t = wrap64 ((t - unixEpoch) div 1000000)"

subsection \<open>Metrics, time series and samples (go.k6.io/k6/metrics)\<close>

text \<open>\<open>metrics.MetricType\<close> is a Go integer type with four named constants; any other
  integer is a value of the type too.\<close>

type_synonym MetricType = int

definition Counter :: MetricType where "Counter = 0"
definition Gauge :: MetricType where "Gauge = 1"
definition Trend :: MetricType where "Trend = 2"
definition Rate :: MetricType where "Rate = 3"

record Metric =
  Name :: string
  Type :: MetricType

text \<open>The series identity: the metric and the tag set. The Go struct holds two pointers
  into k6's registries, where equal contents share one pointer; the model compares the
  contents.\<close>

record TimeSeries =
  Metric :: Metric
  Tags :: "(string \<times> string) list"

text \<open>\<open>float64\<close> values are idealised as reals: no rounding, no NaN, no infinities.\<close>

record Sample =
  TimeSeries :: TimeSeries
  Time :: Time
  Value :: real

text \<open>A \<open>metrics.SampleContainer\<close> is represented by what its \<open>GetSamples()\<close> returns.\<close>

type_synonym SampleContainer = "Sample list"

subsection \<open>Trend statistics resolvers\<close>

text \<open>
  A resolver is a Go closure \<open>func(*metrics.TrendSink) float64\<close>. It is represented by
  its origin: \<open>Column c\<close> is the closure that \<open>metrics.GetResolversForTrendColumns\<close> builds
  for the column \<open>c\<close>, \<open>SumStat\<close> is the closure \<open>func(t) { return t.Sum }\<close> that
  \<open>setTrendStatsResolver\<close> adds itself.

  Go maps that the code ranges over are association lists with distinct keys; an assignment
  \<open>m[k] = v\<close> is \<open>AList.update k v m\<close>. Go ranges over a map in an unspecified order, the
  model in the order of first insertion.
\<close>

datatype Resolver = Column string | SumStat

type_synonym TrendStatsResolver = "(string \<times> Resolver) list"

subsection \<open>Sinks\<close>

text \<open>
  Modelled from the spec: the sinks \<open>metrics.CounterSink\<close>, \<open>metrics.GaugeSink\<close> and
  \<open>metrics.RateSink\<close> of the k6 library and the two Trend sinks of this repository
  (\<open>newExtendedTrendSink\<close>, \<open>newNativeHistogramSink\<close>) are not under src. Section 3 and 4.2
  of the spec give their state: Counter a running sum, Gauge the last written value, Rate
  a numerator and a denominator count, the classic Trend the retained observations and its
  resolvers, the native histogram a summary of the observations recorded (represented here
  by the observations themselves, in arrival order).
\<close>

datatype Sink =
    CounterSink real
  | GaugeSink real
  | RateSink int int
  | ExtendedTrendSink TrendStatsResolver "real list"
  | NativeHistogramSink Metric "real list"

text \<open>
  Modelled from the spec: the \<open>Add\<close> method of the sinks (spec 4.2, merge). Counter adds
  to the running sum, Gauge overwrites, Rate increments the denominator always and the
  numerator when the sample signals a qualifying event (a non-zero value), the Trend sinks
  record the value.
\<close>

fun Add :: "Sink \<Rightarrow> Sample \<Rightarrow> Sink" where
  "Add (CounterSink v) s = CounterSink (v + Value s)"
| "Add (GaugeSink v) s = GaugeSink (Value s)"
| "Add (RateSink trues tot) s =
     RateSink (if Value s \<noteq> 0 then trues + 1 else trues) (tot + 1)"
| "Add (ExtendedTrendSink tsr vals) s = ExtendedTrendSink tsr (vals @ [Value s])"
| "Add (NativeHistogramSink m vals) s = NativeHistogramSink m (vals @ [Value s])"

text \<open>Modelled from the spec: \<open>RateSink.Format\<close>, entry \<open>"rate"\<close> (spec 4.2: numerator over
  denominator, or 0 if the denominator is 0).\<close>

definition rateValue :: "int \<Rightarrow> int \<Rightarrow> real" where
  "rateValue trues tot = (if tot > 0 then real_of_int trues / real_of_int tot else 0)"

subsection \<open>Series with measure, wire types\<close>

record seriesWithMeasure =
  Series :: TimeSeries
  Measure :: Sink
  Latest :: Time

text \<open>\<open>prompb.Sample\<close>, \<open>prompb.TimeSeries\<close>: the fields the code fills. A label is a pair
  of name and value. A histogram point is represented by its timestamp, count and sum.\<close>

record PbSample =
  PbValue :: real
  Timestamp :: int

record PbHistogram =
  HTimestamp :: int
  HCount :: nat
  HSum :: real

record PbTimeSeries =
  Labels :: "(string \<times> string) list"
  Samples :: "PbSample list"
  Histograms :: "PbHistogram list"

subsection \<open>Failures\<close>

text \<open>Go \<open>error\<close> values that the code returns, and the panics it raises.\<close>

datatype error =
    InvalidTrendStat string
  | CollaboratorError string
  | Wrapped string error

datatype panic =
    UnsupportedMetricType MetricType
  | PanicError error
  | TypeAssertion
  | NotPrompbMapper
  | UnrecognizedMetricType string MetricType
  | NilDereference
  | SliceBoundsOutOfRange

subsection \<open>Collaborators outside src\<close>

text \<open>
  The functions of this repository and of its libraries that the code calls and that are
  not under src are parameters of the model:
  \<^item> \<open>trendSinkError\<close>: the error, if any, with which \<open>newExtendedTrendSink\<close> rejects a
    resolver table;
  \<^item> \<open>statValue\<close>: the value that a resolver computes from the observations of a classic
    Trend sink;
  \<^item> \<open>MapSeries\<close>: the labels of a series, with a name suffix;
  \<^item> \<open>Store\<close>: the result of \<open>client.Store\<close> on a batch (\<open>None\<close> is Go's \<open>nil\<close>).
\<close>

record deps =
  trendSinkError :: "TrendStatsResolver \<Rightarrow> error option"
  statValue :: "Resolver \<Rightarrow> real list \<Rightarrow> real"
  MapSeries :: "TimeSeries \<Rightarrow> string \<Rightarrow> (string \<times> string) list"
  Store :: "PbTimeSeries list \<Rightarrow> error option"

subsection \<open>Configuration, log and output state\<close>

record Config =
  URL :: string
  PushInterval :: Duration
  TrendStats :: "string list"
  TrendAsNativeHistogram :: bool

datatype Level = DebugLevel | WarnLevel | ErrorLevel

datatype FieldValue = IntField int | DurationField Duration | ErrorField error | StringField string

text \<open>A log entry: level, the fields attached with \<open>WithField\<close>/\<open>WithError\<close>, the message
  or format string, and the arguments of the format.\<close>

record LogEntry =
  level :: Level
  withFields :: "(string \<times> FieldValue) list"
  message :: string
  args :: "FieldValue list"

text \<open>
  The \<open>Output\<close> struct. \<open>buffer\<close> is the content of the embedded \<open>output.SampleBuffer\<close>,
  \<open>logger\<close> the entries written so far, \<open>client\<close> the batches handed to \<open>client.Store\<close>
  so far. The periodic flusher is outside the model.
\<close>

record Output =
  buffer :: "SampleContainer list"
  config :: Config
  logger :: "LogEntry list"
  tsdb :: "TimeSeries \<rightharpoonup> seriesWithMeasure"
  trendStatsResolver :: TrendStatsResolver
  client :: "PbTimeSeries list list"

section \<open>The sink factory and the encoder\<close>

text \<open>Modelled from the spec: \<open>newNativeHistogramSink\<close> (not under src) gives an empty
  histogram for the metric; \<open>newExtendedTrendSink\<close> (not under src) gives a classic Trend
  sink with no observation and the resolvers given, unless it rejects the resolvers.\<close>

definition newNativeHistogramSink :: "Metric \<Rightarrow> Sink" where
  "newNativeHistogramSink m = NativeHistogramSink m []"

definition newExtendedTrendSink :: "deps \<Rightarrow> TrendStatsResolver \<Rightarrow> error + Sink" where
  "newExtendedTrendSink d tsr =
     (case trendSinkError d tsr of
        Some err \<Rightarrow> Inl err
      | None \<Rightarrow> Inr (ExtendedTrendSink tsr []))"

definition newSeriesWithMeasure ::
  "deps \<Rightarrow> TimeSeries \<Rightarrow> bool \<Rightarrow> TrendStatsResolver \<Rightarrow> panic + seriesWithMeasure" where
  "newSeriesWithMeasure d series trendAsNativeHistogram tsr =
     (let ty = Type (Metric series);
          mk = (\<lambda>sink. \<lparr>Series = series, Measure = sink, Latest = 0\<rparr>)
      in if ty = Counter then Inr (mk (CounterSink 0))
         else if ty = Gauge then Inr (mk (GaugeSink 0))
         else if ty = Trend then
           (if trendAsNativeHistogram then Inr (mk (newNativeHistogramSink (Metric series)))
            else (case newExtendedTrendSink d tsr of
                    Inl err \<Rightarrow> Inl (PanicError err)
                  | Inr sink \<Rightarrow> Inr (mk sink)))
         else if ty = Rate then Inr (mk (RateSink 0 0))
         else Inl (UnsupportedMetricType ty))"

text \<open>
  Modelled from the spec: the \<open>MapPrompb\<close> method of the two Trend sinks (trend.go, not
  under src). Section 4.2 and 4.3 of the spec: the classic Trend emits one wire series per
  requested statistic, with a suffix-qualified name and one point, the value of the
  statistic at the latest truncated time; the native histogram emits one wire series with
  one histogram-valued point (count and sum of the observations; the buckets are not
  represented). Any other sink has no such method.
\<close>

definition trendMapPrompb :: "deps \<Rightarrow> Sink \<Rightarrow> TimeSeries \<Rightarrow> Time \<Rightarrow> PbTimeSeries list" where
  "trendMapPrompb d sink series t =
     (case sink of
        ExtendedTrendSink tsr vals \<Rightarrow>
          map (\<lambda>kv. \<lparr>Labels = MapSeries d series (fst kv),
                     Samples = [\<lparr>PbValue = statValue d (snd kv) vals, Timestamp = UnixMilli t\<rparr>],
                     Histograms = []\<rparr>) tsr
      | NativeHistogramSink m vals \<Rightarrow>
          [\<lparr>Labels = MapSeries d series [],
            Samples = [],
            Histograms = [\<lparr>HTimestamp = UnixMilli t, HCount = length vals,
                           HSum = sum_list vals\<rparr>]\<rparr>]
      | _ \<Rightarrow> [])"

definition mapMonoSeries :: "deps \<Rightarrow> TimeSeries \<Rightarrow> Time \<Rightarrow> real \<Rightarrow> PbTimeSeries" where
  "mapMonoSeries d s t v =
     \<lparr>Labels = MapSeries d s [],
      Samples = [\<lparr>PbValue = v, Timestamp = UnixMilli t\<rparr>],
      Histograms = []\<rparr>"

text \<open>\<open>MapPrompb\<close>: the switch on the metric type, in the source's order. A type assertion
  on a sink of another dynamic type panics.\<close>

definition MapPrompb :: "deps \<Rightarrow> seriesWithMeasure \<Rightarrow> panic + PbTimeSeries list" where
  "MapPrompb d swm =
     (let ty = Type (Metric (Series swm)) in
      if ty = Counter then
        (case Measure swm of
           CounterSink v \<Rightarrow> Inr [mapMonoSeries d (Series swm) (Latest swm) v]
         | _ \<Rightarrow> Inl TypeAssertion)
      else if ty = Gauge then
        (case Measure swm of
           GaugeSink v \<Rightarrow> Inr [mapMonoSeries d (Series swm) (Latest swm) v]
         | _ \<Rightarrow> Inl TypeAssertion)
      else if ty = Rate then
        (case Measure swm of
           RateSink trues tot \<Rightarrow>
             Inr [mapMonoSeries d (Series swm) (Latest swm) (rateValue trues tot)]
         | _ \<Rightarrow> Inl TypeAssertion)
      else if ty = Trend then
        (case Measure swm of
           ExtendedTrendSink tsr vals \<Rightarrow>
             Inr (trendMapPrompb d (Measure swm) (Series swm) (Latest swm))
         | NativeHistogramSink m vals \<Rightarrow>
             Inr (trendMapPrompb d (Measure swm) (Series swm) (Latest swm))
         | _ \<Rightarrow> Inl NotPrompbMapper)
      else Inl (UnrecognizedMetricType (Name (Metric (Series swm))) ty))"

section \<open>The aggregation loop of \<open>convertToPbSeries\<close>\<close>

text \<open>
  The loop state is the output (whose \<open>tsdb\<close> the loop mutates) and the \<open>seen\<close> map, a
  Go set, represented by the list of its keys in insertion order. A panic stops the loop;
  the state is then the one reached before the panicking sample, since
  \<open>newSeriesWithMeasure\<close> panics before the iteration writes anything.
\<close>

definition mark :: "TimeSeries \<Rightarrow> TimeSeries list \<Rightarrow> TimeSeries list" where
  "mark s seen = (if s \<in> set seen then seen else seen @ [s])"

text \<open>The body of the inner loop, for one sample.\<close>

definition addSample ::
  "deps \<Rightarrow> Output \<times> TimeSeries list \<Rightarrow> Sample \<Rightarrow> panic + (Output \<times> TimeSeries list)" where
  "addSample d st sample =
     (let ou = fst st; seen = snd st;
          truncTime = Truncate (Time sample) Millisecond
      in case tsdb ou (TimeSeries sample) of
           None \<Rightarrow>
             (case newSeriesWithMeasure d (TimeSeries sample)
                     (TrendAsNativeHistogram (config ou)) (trendStatsResolver ou) of
                Inl p \<Rightarrow> Inl p
              | Inr swm \<Rightarrow>
                  Inr (ou\<lparr>tsdb := (tsdb ou)(TimeSeries sample \<mapsto>
                         swm\<lparr>Latest := truncTime, Measure := Add (Measure swm) sample\<rparr>)\<rparr>,
                       mark (TimeSeries sample) seen))
         | Some swm \<Rightarrow>
             (if After truncTime (Latest swm)
              then Inr (ou\<lparr>tsdb := (tsdb ou)(TimeSeries sample \<mapsto>
                          swm\<lparr>Latest := truncTime, Measure := Add (Measure swm) sample\<rparr>)\<rparr>,
                        mark (TimeSeries sample) seen)
              else Inr (ou\<lparr>tsdb := (tsdb ou)(TimeSeries sample \<mapsto>
                          swm\<lparr>Measure := Add (Measure swm) sample\<rparr>)\<rparr>,
                        seen)))"

text \<open>The inner loop over the samples of one container, and the outer loop over the
  containers. The second component of the result is the panic that stopped the loop.\<close>

fun addSamples ::
  "deps \<Rightarrow> Output \<times> TimeSeries list \<Rightarrow> Sample list \<Rightarrow> (Output \<times> TimeSeries list) \<times> panic option"
  where
  "addSamples d st [] = (st, None)"
| "addSamples d st (sample # samples) =
     (case addSample d st sample of
        Inl p \<Rightarrow> (st, Some p)
      | Inr st' \<Rightarrow> addSamples d st' samples)"

fun addContainers ::
  "deps \<Rightarrow> Output \<times> TimeSeries list \<Rightarrow> SampleContainer list
     \<Rightarrow> (Output \<times> TimeSeries list) \<times> panic option"
  where
  "addContainers d st [] = (st, None)"
| "addContainers d st (samplesContainer # samplesContainers) =
     (case addSamples d st samplesContainer of
        (st', Some p) \<Rightarrow> (st', Some p)
      | (st', None) \<Rightarrow> addContainers d st' samplesContainers)"

text \<open>The final loop: \<open>for s := range seen { pbseries = append(pbseries,
  o.tsdb[s].MapPrompb()...) }\<close>.\<close>

fun mapSeen :: "deps \<Rightarrow> Output \<Rightarrow> TimeSeries list \<Rightarrow> panic + PbTimeSeries list" where
  "mapSeen d ou [] = Inr []"
| "mapSeen d ou (s # ss) =
     (case tsdb ou s of
        None \<Rightarrow> Inl NilDereference
      | Some swm \<Rightarrow>
          (case MapPrompb d swm of
             Inl p \<Rightarrow> Inl p
           | Inr ts \<Rightarrow>
               (case mapSeen d ou ss of
                  Inl p \<Rightarrow> Inl p
                | Inr rest \<Rightarrow> Inr (ts @ rest))))"

text \<open>\<open>convertToPbSeries\<close> returns the output as the call leaves it and either the panic
  that aborted the call or the wire series.\<close>

definition convertToPbSeries ::
  "deps \<Rightarrow> Output \<Rightarrow> SampleContainer list \<Rightarrow> Output \<times> (panic + PbTimeSeries list)" where
  "convertToPbSeries d ou samplesContainers =
     (case addContainers d (ou, []) samplesContainers of
        ((ou', seen), Some p) \<Rightarrow> (ou', Inl p)
      | ((ou', seen), None) \<Rightarrow> (ou', mapSeen d ou' seen))"

section \<open>The flush\<close>

definition logEntry ::
  "Level \<Rightarrow> (string \<times> FieldValue) list \<Rightarrow> string \<Rightarrow> FieldValue list \<Rightarrow> Output \<Rightarrow> Output" where
  "logEntry l fs m as ou =
     ou\<lparr>logger := logger ou @ [\<lparr>level = l, withFields = fs, message = m, args = as\<rparr>]\<rparr>"

text \<open>The deferred function of \<open>flush\<close>. \<open>took\<close> is \<open>time.Since(start)\<close> as the deferred
  function measures it, \<open>nts\<close> the variable of that name when the function runs.\<close>

definition flushDeferred :: "Duration \<Rightarrow> int \<Rightarrow> Output \<Rightarrow> Output" where
  "flushDeferred took nts ou =
     (let okmsg = ''Successful flushed time series to remote write endpoint'' in
      if took > PushInterval (config ou) then
        logEntry WarnLevel [(''nts'', IntField nts)]
          ''%s but it took %s while flush period is %s. Some samples may be dropped.''
          [StringField okmsg, DurationField took, DurationField (PushInterval (config ou))] ou
      else
        logEntry DebugLevel [(''nts'', IntField nts), (''took'', DurationField took)]
          okmsg [] ou)"

text \<open>
  \<open>flush\<close>. \<open>GetBufferedSamples\<close> returns the buffered containers and leaves the buffer
  empty. The result is the output as the call leaves it and the panic, if any, that
  leaves the call; the deferred function runs in either case.
\<close>

definition flush :: "deps \<Rightarrow> Duration \<Rightarrow> Output \<Rightarrow> Output \<times> panic option" where
  "flush d took ou =
     (let samplesContainers = buffer ou;
          ou0 = ou\<lparr>buffer := []\<rparr>
      in if length samplesContainers < 1 then
           (flushDeferred took 0
              (logEntry DebugLevel [] ''no buffered samples, skip the flushing operation'' [] ou0),
            None)
         else
           (case convertToPbSeries d ou0 samplesContainers of
              (ou1, Inl p) \<Rightarrow> (flushDeferred took 0 ou1, Some p)
            | (ou1, Inr promTimeSeries) \<Rightarrow>
                (let nts = int (length promTimeSeries);
                     ou2 = logEntry DebugLevel [(''nts'', IntField nts)]
                             ''Converted samples to Prometheus TimeSeries'' [] ou1;
                     ou3 = ou2\<lparr>client := client ou2 @ [promTimeSeries]\<rparr>
                 in case Store d promTimeSeries of
                      Some err \<Rightarrow>
                        (flushDeferred took nts
                           (logEntry ErrorLevel [(''error'', ErrorField err)]
                              ''Failed to send the time series data to the endpoint'' [] ou3),
                         None)
                    | None \<Rightarrow> (flushDeferred took nts ou3, None))))"


section \<open>Construction\<close>

text \<open>
  The collaborators of \<open>New\<close> that are not under src are parameters:
  \<open>GetConsolidatedConfig\<close> and \<open>RemoteConfig\<close> of this repository, \<open>remote.NewWriteClient\<close>
  (of which only the error matters: the client is represented by the batches handed to it),
  and \<open>resolveColumn\<close>, the error, if any, with which the k6 function
  \<open>metrics.GetResolversForTrendColumns\<close> rejects one column.
\<close>

record Params =
  JSONConfig :: string
  Environment :: "(string \<times> string) list"
  ConfigArgument :: string

record 'cc ctor =
  GetConsolidatedConfig :: "Params \<Rightarrow> error + Config"
  RemoteConfig :: "Config \<Rightarrow> error + 'cc"
  NewWriteClient :: "string \<Rightarrow> 'cc \<Rightarrow> error option"
  resolveColumn :: "string \<Rightarrow> error option"

datatype 'a result = Ok 'a | Err error | Panic panic

text \<open>The first loop of \<open>setTrendStatsResolver\<close>: the copy without \<open>"sum"\<close>, and
  \<open>hasSum\<close>.\<close>

fun copyExcludingSum :: "string list \<Rightarrow> string list \<times> bool \<Rightarrow> string list \<times> bool" where
  "copyExcludingSum [] acc = acc"
| "copyExcludingSum (stat # stats) (trendStatsCopy, hasSum) =
     (if stat = ''sum'' then copyExcludingSum stats (trendStatsCopy, True)
      else copyExcludingSum stats (trendStatsCopy @ [stat], hasSum))"

text \<open>
  Modelled from the spec: \<open>metrics.GetResolversForTrendColumns\<close> (k6 library, not under
  src) maps every requested column to its resolver and fails when a requested name cannot
  be resolved to a computation (spec 4.2a).
\<close>

fun getResolvers ::
  "(string \<Rightarrow> error option) \<Rightarrow> string list \<Rightarrow> (string \<times> Resolver) list
     \<Rightarrow> error + (string \<times> Resolver) list" where
  "getResolvers rc [] res = Inr res"
| "getResolvers rc (stat # stats) res =
     (case rc stat of
        Some err \<Rightarrow> Inl err
      | None \<Rightarrow> getResolvers rc stats (AList.update stat (Column stat) res))"

definition GetResolversForTrendColumns ::
  "'cc ctor \<Rightarrow> string list \<Rightarrow> error + (string \<times> Resolver) list" where
  "GetResolversForTrendColumns c trendColumns = getResolvers (resolveColumn c) trendColumns []"

definition HasPrefix :: "string \<Rightarrow> string \<Rightarrow> bool" where
  "HasPrefix s pre = (take (length pre) s = pre)"

text \<open>\<open>strings.ReplaceAll(s, ".", "")\<close>: every dot deleted.\<close>

definition removeDots :: "string \<Rightarrow> string" where
  "removeDots s = filter (\<lambda>ch. ch \<noteq> CHR ''.'') s"

text \<open>The key of one resolver. The slice expression \<open>stat[2 : len(statKey)-1]\<close> panics
  when its upper bound is below its lower bound.\<close>

definition statKeyOf :: "string \<Rightarrow> panic + string" where
  "statKeyOf stat =
     (if HasPrefix stat ''p('' then
        (if int (length stat) - 1 < 2 then Inl SliceBoundsOutOfRange
         else Inr (''p'' @ removeDots (drop 2 (take (length stat - 1) stat))))
      else Inr stat)"

text \<open>The second loop: \<open>for stat, fn := range resolvers\<close>.\<close>

fun storeResolvers ::
  "(string \<times> Resolver) list \<Rightarrow> TrendStatsResolver \<Rightarrow> panic + TrendStatsResolver" where
  "storeResolvers [] tsr = Inr tsr"
| "storeResolvers ((stat, fn) # resolvers) tsr =
     (case statKeyOf stat of
        Inl p \<Rightarrow> Inl p
      | Inr statKey \<Rightarrow> storeResolvers resolvers (AList.update statKey fn tsr))"

definition setTrendStatsResolver :: "'cc ctor \<Rightarrow> Output \<Rightarrow> string list \<Rightarrow> Output result" where
  "setTrendStatsResolver c ou trendStats =
     (case copyExcludingSum trendStats ([], False) of
        (trendStatsCopy, hasSum) \<Rightarrow>
          (case GetResolversForTrendColumns c trendStatsCopy of
             Inl err \<Rightarrow> Err err
           | Inr resolvers0 \<Rightarrow>
               (let resolvers =
                      (if hasSum then AList.update ''sum'' SumStat resolvers0 else resolvers0)
                in case storeResolvers resolvers [] of
                     Inl p \<Rightarrow> Panic p
                   | Inr tsr \<Rightarrow> Ok (ou\<lparr>trendStatsResolver := tsr\<rparr>))))"

definition New :: "'cc ctor \<Rightarrow> Params \<Rightarrow> Output result" where
  "New c params =
     (case GetConsolidatedConfig c params of
        Inl err \<Rightarrow> Err err
      | Inr cfg \<Rightarrow>
          (case RemoteConfig c cfg of
             Inl err \<Rightarrow> Err err
           | Inr clientConfig \<Rightarrow>
               (case NewWriteClient c (URL cfg) clientConfig of
                  Some err \<Rightarrow>
                    Err (Wrapped ''failed to initialize the Prometheus remote write client'' err)
                | None \<Rightarrow>
                    (let ou = \<lparr>buffer = [], config = cfg, logger = [], tsdb = Map.empty,
                               trendStatsResolver = [], client = []\<rparr>
                     in if length (TrendStats cfg) > 0
                        then setTrendStatsResolver c ou (TrendStats cfg)
                        else Ok ou))))"

section \<open>Notions used by the properties\<close>

subsection \<open>The per-sample algorithm of the specification\<close>

text \<open>
  Section 4.1 of the specification, in its own words, on a table from identities to series
  states and the set of identities marked advanced. Flooring to the millisecond is written
  with a division. The sink of a new series state is initialised per metric kind
  (section 3); an unrecognised kind aborts (\<open>None\<close>).
\<close>

definition specFloorMs :: "Time \<Rightarrow> Time" where
  "specFloorMs t = (t div 1000000) * 1000000"

definition specNewSink :: "bool \<Rightarrow> TrendStatsResolver \<Rightarrow> TimeSeries \<Rightarrow> Sink option" where
  "specNewSink nativeHistogram tsr ident =
     (let kind = Type (Metric ident) in
      if kind = Counter then Some (CounterSink 0)
      else if kind = Gauge then Some (GaugeSink 0)
      else if kind = Rate then Some (RateSink 0 0)
      else if kind = Trend then
        Some (if nativeHistogram then NativeHistogramSink (Metric ident) []
              else ExtendedTrendSink tsr [])
      else None)"

definition specStep ::
  "bool \<Rightarrow> TrendStatsResolver \<Rightarrow> (TimeSeries \<rightharpoonup> seriesWithMeasure) \<times> TimeSeries set \<Rightarrow> Sample
     \<Rightarrow> ((TimeSeries \<rightharpoonup> seriesWithMeasure) \<times> TimeSeries set) option" where
  "specStep nativeHistogram tsr st x =
     (let table = fst st; marked = snd st;
          ident = TimeSeries x;
          t = specFloorMs (Time x)
      in case table ident of
           None \<Rightarrow>
             (case specNewSink nativeHistogram tsr ident of
                None \<Rightarrow> None
              | Some sink \<Rightarrow>
                  Some (table(ident \<mapsto> \<lparr>Series = ident, Measure = Add sink x, Latest = t\<rparr>),
                        insert ident marked))
         | Some state \<Rightarrow>
             (if Latest state < t
              then Some (table(ident \<mapsto> \<lparr>Series = Series state, Measure = Add (Measure state) x,
                                          Latest = t\<rparr>),
                         insert ident marked)
              else Some (table(ident \<mapsto> \<lparr>Series = Series state, Measure = Add (Measure state) x,
                                          Latest = Latest state\<rparr>),
                         marked)))"

fun specRun ::
  "bool \<Rightarrow> TrendStatsResolver \<Rightarrow> (TimeSeries \<rightharpoonup> seriesWithMeasure) \<times> TimeSeries set \<Rightarrow> Sample list
     \<Rightarrow> ((TimeSeries \<rightharpoonup> seriesWithMeasure) \<times> TimeSeries set) option" where
  "specRun nativeHistogram tsr st [] = Some st"
| "specRun nativeHistogram tsr st (x # xs) =
     (case specStep nativeHistogram tsr st x of
        None \<Rightarrow> None
      | Some st' \<Rightarrow> specRun nativeHistogram tsr st' xs)"

subsection \<open>Advanced identities, samples of a series\<close>

text \<open>An identity advanced between two tables when the later table holds it and the
  earlier one either did not or held it with a strictly smaller latest timestamp
  (section 3 of the specification, eligibility for emission).\<close>

definition advanced ::
  "(TimeSeries \<rightharpoonup> seriesWithMeasure) \<Rightarrow> (TimeSeries \<rightharpoonup> seriesWithMeasure) \<Rightarrow> TimeSeries \<Rightarrow> bool"
  where
  "advanced before after s =
     (case after s of
        None \<Rightarrow> False
      | Some swm' \<Rightarrow> (case before s of None \<Rightarrow> True | Some swm \<Rightarrow> Latest swm < Latest swm'))"

text \<open>Every entry of the table is stored under its own identity, as \<open>convertToPbSeries\<close>
  stores it.\<close>

definition keyed :: "(TimeSeries \<rightharpoonup> seriesWithMeasure) \<Rightarrow> bool" where
  "keyed table = (\<forall>s swm. table s = Some swm \<longrightarrow> Series swm = s)"



subsection \<open>Example inputs\<close>

text \<open>Example collaborators: the classic Trend sink rejects an empty resolver table; the
  resolver added for \<open>sum\<close> gives the sum of the observations, any other resolver their
  maximum; labels are the tags and the name label, the suffix joined to the name with an
  underscore; the transport accepts every batch, or rejects every batch.\<close>

definition exDeps :: deps where
  "exDeps =
     \<lparr>trendSinkError = (\<lambda>tsr. if tsr = [] then Some (CollaboratorError ''empty resolver'') else None),
      statValue = (\<lambda>r vals. case r of SumStat \<Rightarrow> sum_list vals | Column c \<Rightarrow> foldr max vals 0),
      MapSeries = (\<lambda>s suffix.
         Tags s @ [(''__name__'',
                    if suffix = [] then Name (Metric s) else Name (Metric s) @ ''_'' @ suffix)]),
      Store = (\<lambda>batch. None)\<rparr>"

definition exFailingDeps :: deps where
  "exFailingDeps = exDeps\<lparr>Store := (\<lambda>batch. Some (CollaboratorError ''server returned 500''))\<rparr>"

definition exSeries :: "string \<Rightarrow> MetricType \<Rightarrow> TimeSeries" where
  "exSeries n ty = \<lparr>Metric = \<lparr>Name = n, Type = ty\<rparr>, Tags = []\<rparr>"

text \<open>A sample at the given number of nanoseconds after the Unix epoch.\<close>

definition exSample :: "TimeSeries \<Rightarrow> int \<Rightarrow> real \<Rightarrow> Sample" where
  "exSample s ns v = \<lparr>TimeSeries = s, Time = unixEpoch + ns, Value = v\<rparr>"

definition exConfig :: Config where
  "exConfig = \<lparr>URL = ''http://localhost:9090/api/v1/write'', PushInterval = 5000000000,
               TrendStats = [''p(99)''], TrendAsNativeHistogram = False\<rparr>"

definition exOutput :: Output where
  "exOutput = \<lparr>buffer = [], config = exConfig, logger = [], tsdb = Map.empty,
               trendStatsResolver = [(''p99'', Column ''p(99)'')], client = []\<rparr>"

text \<open>The integers that an \<open>int64\<close> holds.\<close>

definition fitsInt64 :: "int \<Rightarrow> bool" where
  "fitsInt64 x = (- (2 ^ 63) \<le> x \<and> x < 2 ^ 63)"

text \<open>The invariant of the aggregation loop that started with the table \<open>T\<close> and an
  empty \<open>seen\<close> map.\<close>

definition seenInv ::
  "(TimeSeries \<rightharpoonup> seriesWithMeasure) \<Rightarrow> Output \<times> TimeSeries list \<Rightarrow> bool" where
  "seenInv T st =
     (distinct (snd st) \<and>
      (\<forall>s. s \<in> set (snd st) \<longleftrightarrow> advanced T (tsdb (fst st)) s) \<and>
      (\<forall>s swm. T s = Some swm \<longrightarrow>
         (\<exists>swm'. tsdb (fst st) s = Some swm' \<and> Latest swm \<le> Latest swm')) \<and>
      (\<forall>s \<in> set (snd st). \<exists>swm'. tsdb (fst st) s = Some swm' \<and> Latest swm' mod Millisecond = 0) \<and>
      (keyed T \<longrightarrow> keyed (tsdb (fst st))))"

definition exReqs :: TimeSeries where
  "exReqs = exSeries ''http_reqs'' Counter"

definition exUnknown :: TimeSeries where
  "exUnknown = exSeries ''mystery'' 7"

text \<open>Two containers: three samples of one counter series, the first two within the same
  millisecond.\<close>

definition exBatch :: "SampleContainer list" where
  "exBatch = [[exSample exReqs 1500000 1, exSample exReqs 1600000 2],
              [exSample exReqs 2000000 3]]"

definition exReqsState :: "real \<Rightarrow> int \<Rightarrow> seriesWithMeasure" where
  "exReqsState v ns = \<lparr>Series = exReqs, Measure = CounterSink v, Latest = unixEpoch + ns\<rparr>"

text \<open>The output after a first cycle that left the counter series at 6, latest at 2 ms.\<close>

definition exOutput1 :: Output where
  "exOutput1 = exOutput\<lparr>tsdb := [exReqs \<mapsto> exReqsState 6 2000000]\<rparr>"

definition exReqsPoint :: "real \<Rightarrow> int \<Rightarrow> PbTimeSeries" where
  "exReqsPoint v ms =
     \<lparr>Labels = [(''__name__'', ''http_reqs'')],
      Samples = [\<lparr>PbValue = v, Timestamp = ms\<rparr>], Histograms = []\<rparr>"

text \<open>A classic Trend series, and the example output with two requested statistics.\<close>

definition exTrend :: TimeSeries where
  "exTrend = exSeries ''http_req_duration'' Trend"

definition exOutput2 :: Output where
  "exOutput2 =
     exOutput\<lparr>trendStatsResolver := [(''p95'', Column ''p(95)''), (''p99'', Column ''p(99)'')]\<rparr>"

definition exTrendPoint :: "string \<Rightarrow> real \<Rightarrow> int \<Rightarrow> PbTimeSeries" where
  "exTrendPoint key v ms =
     \<lparr>Labels = [(''__name__'', ''http_req_duration_'' @ key)],
      Samples = [\<lparr>PbValue = v, Timestamp = ms\<rparr>], Histograms = []\<rparr>"

text \<open>The entries that \<open>flush\<close> writes: the error entry for a failed delivery and the
  warning of the deferred function.\<close>

definition storeErrorEntry :: "error \<Rightarrow> LogEntry" where
  "storeErrorEntry err =
     \<lparr>level = ErrorLevel, withFields = [(''error'', ErrorField err)],
      message = ''Failed to send the time series data to the endpoint'', args = []\<rparr>"

definition slowFlushWarning :: "int \<Rightarrow> Duration \<Rightarrow> Duration \<Rightarrow> LogEntry" where
  "slowFlushWarning nts took interval =
     \<lparr>level = WarnLevel, withFields = [(''nts'', IntField nts)],
      message = ''%s but it took %s while flush period is %s. Some samples may be dropped.'',
      args = [StringField ''Successful flushed time series to remote write endpoint'',
              DurationField took, DurationField interval]\<rparr>"

text \<open>The example output with the example batch in its buffer.\<close>

definition exBuffered :: Output where
  "exBuffered = exOutput\<lparr>buffer := exBatch\<rparr>"

subsection \<open>Keys and resolvers of the requested statistics\<close>

text \<open>The key of a requested statistic in the words of the claim: for a name that starts
  with \<open>p(\<close>, the prefix and the last character stripped, every dot deleted, and \<open>p\<close>
  prepended; any other name unchanged.\<close>

definition specStatKey :: "string \<Rightarrow> string" where
  "specStatKey stat =
     (if HasPrefix stat ''p('' then ''p'' @ filter (\<lambda>ch. ch \<noteq> CHR ''.'') (butlast (drop 2 stat))
      else stat)"

text \<open>The resolver of a requested statistic: the one added for \<open>"sum"\<close>, or the one of
  the column.\<close>

definition resolverOf :: "string \<Rightarrow> Resolver" where
  "resolverOf stat = (if stat = ''sum'' then SumStat else Column stat)"

text \<open>Example collaborators of \<open>New\<close>: the configuration is given by the JSON argument
  (a list of statistic names separated by commas stands for the parsed configuration),
  and a column resolves when it is one of the fixed names or has the form \<open>p(...)\<close>.\<close>

definition exResolve :: "string \<Rightarrow> error option" where
  "exResolve stat =
     (if stat \<in> {''avg'', ''min'', ''med'', ''max'', ''count''} then None
      else if HasPrefix stat ''p('' \<and> 3 \<le> length stat \<and> last stat = CHR '')'' then None
      else Some (InvalidTrendStat stat))"

definition exCtor :: "string list \<Rightarrow> unit ctor" where
  "exCtor stats =
     \<lparr>GetConsolidatedConfig = (\<lambda>params. Inr (exConfig\<lparr>TrendStats := stats\<rparr>)),
      RemoteConfig = (\<lambda>cfg. Inr ()),
      NewWriteClient = (\<lambda>url cc. None),
      resolveColumn = exResolve\<rparr>"

definition exParams :: Params where
  "exParams = \<lparr>JSONConfig = [], Environment = [], ConfigArgument = []\<rparr>"

subsection \<open>The history of a table\<close>






section \<open>Properties\<close>

subsection \<open>Time\<close>

lemma Truncate_Millisecond: "Truncate t Millisecond = specFloorMs t"
  by (simp add: Truncate_def Millisecond_def specFloorMs_def minus_mod_eq_div_mult)

lemma Truncate_aligned: "Truncate t Millisecond mod Millisecond = 0"
  by (simp add: Truncate_def Millisecond_def)

lemma wrap64_id: "fitsInt64 x \<Longrightarrow> wrap64 x = x"
  by (simp add: fitsInt64_def wrap64_def)

lemma floor_millis_strict:
  assumes "t < u" and "u mod Millisecond = 0"
  shows "(t - unixEpoch) div 1000000 < (u - unixEpoch) div 1000000"
proof -
  have e: "unixEpoch mod 1000000 = 0" by (simp add: unixEpoch_def)
  from assms(2) have "(u - unixEpoch) mod 1000000 = 0"
    using e by (simp add: Millisecond_def mod_diff_eq[symmetric, of u])
  then obtain k where k: "u - unixEpoch = 1000000 * k" by (auto simp: mod_eq_0_iff_dvd)
  from assms(1) k have "t - unixEpoch < 1000000 * k" by simp
  then have "(t - unixEpoch) div 1000000 < k" by (simp add: div_less_iff_less_mult mult.commute)
  moreover have "(u - unixEpoch) div 1000000 = k" using k by simp
  ultimately show ?thesis by simp
qed

text \<open>Within the range of \<open>int64\<close> milliseconds, a strictly later millisecond-aligned time
  has a strictly greater \<open>UnixMilli\<close>.\<close>

lemma UnixMilli_strict:
  assumes "t < u" and "u mod Millisecond = 0"
    and "fitsInt64 ((t - unixEpoch) div 1000000)" and "fitsInt64 ((u - unixEpoch) div 1000000)"
  shows "UnixMilli t < UnixMilli u"
  using floor_millis_strict[OF assms(1,2)] assms(3,4) by (simp add: UnixMilli_def wrap64_id)

subsection \<open>The loops\<close>

lemma addSamples_append:
  "addSamples d st (xs @ ys) =
     (case addSamples d st xs of
        (st', Some p) \<Rightarrow> (st', Some p)
      | (st', None) \<Rightarrow> addSamples d st' ys)"
  by (induction xs arbitrary: st) (auto split: sum.splits)

lemma addContainers_concat: "addContainers d st cs = addSamples d st (concat cs)"
  by (induction cs arbitrary: st) (auto simp: addSamples_append split: prod.splits option.splits)

text \<open>A property that every iteration of the loop body preserves holds of the state in
  which the loop stops, panic or not.\<close>

lemma addSamples_invariant:
  assumes "P st" and "\<And>st x st'. P st \<Longrightarrow> addSample d st x = Inr st' \<Longrightarrow> P st'"
  shows "P (fst (addSamples d st xs))"
  using assms(1)
proof (induction xs arbitrary: st)
  case Nil
  then show ?case by simp
next
  case (Cons x xs)
  show ?case
  proof (cases "addSample d st x")
    case (Inl p)
    with Cons.prems show ?thesis by simp
  next
    case (Inr st')
    with Cons.prems have "P st'" using assms(2) by blast
    from Cons.IH[OF this] Inr show ?thesis by simp
  qed
qed

lemma addSample_frame:
  "addSample d st x = Inr st' \<Longrightarrow>
     config (fst st') = config (fst st) \<and>
     trendStatsResolver (fst st') = trendStatsResolver (fst st) \<and>
     buffer (fst st') = buffer (fst st) \<and> logger (fst st') = logger (fst st) \<and>
     client (fst st') = client (fst st)"
  by (auto simp: addSample_def Let_def split: option.splits sum.splits if_splits)

lemma addSamples_frame:
  "config (fst (fst (addSamples d st xs))) = config (fst st) \<and>
   trendStatsResolver (fst (fst (addSamples d st xs))) = trendStatsResolver (fst st) \<and>
   buffer (fst (fst (addSamples d st xs))) = buffer (fst st) \<and>
   logger (fst (fst (addSamples d st xs))) = logger (fst st) \<and>
   client (fst (fst (addSamples d st xs))) = client (fst st)"
  by (rule addSamples_invariant[where P = "\<lambda>st'. config (fst st') = config (fst st) \<and>
        trendStatsResolver (fst st') = trendStatsResolver (fst st) \<and>
        buffer (fst st') = buffer (fst st) \<and> logger (fst st') = logger (fst st) \<and>
        client (fst st') = client (fst st)"])
     (use addSample_frame in \<open>simp_all\<close>)

lemma addSample_existing:
  assumes "addSample d st x = Inr st'" and "tsdb (fst st) s = Some swm"
  shows "\<exists>swm'. tsdb (fst st') s = Some swm' \<and> Series swm' = Series swm \<and>
           Latest swm' = (if TimeSeries x = s then max (Latest swm) (Truncate (Time x) Millisecond)
                          else Latest swm)"
  using assms
  by (auto simp: addSample_def Let_def After_def split: option.splits sum.splits if_splits)

lemma addSamples_existing:
  assumes "tsdb (fst st) s = Some swm"
  shows "\<exists>swm'. tsdb (fst (fst (addSamples d st xs))) s = Some swm' \<and>
           Latest swm \<le> Latest swm' \<and>
           ((\<forall>x \<in> set xs. TimeSeries x = s \<longrightarrow> Truncate (Time x) Millisecond \<le> Latest swm)
              \<longrightarrow> Latest swm' = Latest swm)"
  using assms
proof (induction xs arbitrary: st swm)
  case Nil
  then show ?case by simp
next
  case (Cons x xs)
  show ?case
  proof (cases "addSample d st x")
    case (Inl q)
    with Cons.prems show ?thesis by simp
  next
    case (Inr st1)
    from addSample_existing[OF Inr Cons.prems]
    obtain swm1 where s1: "tsdb (fst st1) s = Some swm1"
      and l1: "Latest swm1 =
                 (if TimeSeries x = s then max (Latest swm) (Truncate (Time x) Millisecond)
                  else Latest swm)" by blast
    from Cons.IH[OF s1] obtain swm' where
      s': "tsdb (fst (fst (addSamples d st1 xs))) s = Some swm'" and
      le: "Latest swm1 \<le> Latest swm'" and
      eq: "(\<forall>x \<in> set xs. TimeSeries x = s \<longrightarrow> Truncate (Time x) Millisecond \<le> Latest swm1)
              \<longrightarrow> Latest swm' = Latest swm1" by blast
    have a: "Latest swm \<le> Latest swm1" using l1 by simp
    have "(\<forall>y \<in> set (x # xs). TimeSeries y = s \<longrightarrow> Truncate (Time y) Millisecond \<le> Latest swm)
              \<longrightarrow> Latest swm' = Latest swm"
    proof
      assume h: "\<forall>y \<in> set (x # xs). TimeSeries y = s \<longrightarrow>
                   Truncate (Time y) Millisecond \<le> Latest swm"
      then have e1: "Latest swm1 = Latest swm" using l1 by auto
      with h eq show "Latest swm' = Latest swm" by auto
    qed
    with s' le a Inr show ?thesis by (intro exI[of _ swm']) auto
  qed
qed

lemma convertToPbSeries_fst:
  "fst (convertToPbSeries d ou cs) = fst (fst (addSamples d (ou, []) (concat cs)))"
  by (simp add: convertToPbSeries_def addContainers_concat split: prod.splits option.splits)

subsection \<open>The identities marked in a cycle\<close>

lemma seenInv_init: "seenInv (tsdb ou) (ou, [])"
  by (auto simp: seenInv_def advanced_def split: option.splits)

lemma newSeriesWithMeasure_Series:
  "newSeriesWithMeasure d s b tsr = Inr swm \<Longrightarrow> Series swm = s"
  by (auto simp: newSeriesWithMeasure_def Let_def split: if_splits sum.splits)

lemma seenInv_step:
  assumes inv: "seenInv T st" and step: "addSample d st x = Inr st'"
  shows "seenInv T st'"
proof -
  from inv have dist: "distinct (snd st)"
    and adv: "\<And>s. s \<in> set (snd st) \<longleftrightarrow> advanced T (tsdb (fst st)) s"
    and mono: "\<And>s swm. T s = Some swm \<Longrightarrow>
                 \<exists>swm'. tsdb (fst st) s = Some swm' \<and> Latest swm \<le> Latest swm'"
    and aligned: "\<And>s. s \<in> set (snd st) \<Longrightarrow>
                 \<exists>swm'. tsdb (fst st) s = Some swm' \<and> Latest swm' mod Millisecond = 0"
    and key: "keyed T \<Longrightarrow> keyed (tsdb (fst st))"
    unfolding seenInv_def by blast+
  define i where "i = TimeSeries x"
  define t where "t = Truncate (Time x) Millisecond"
  have t0: "t mod Millisecond = 0" by (simp add: t_def Truncate_aligned)
  show ?thesis
  proof (cases "tsdb (fst st) i")
    case None
    have T0: "T i = None"
    proof (cases "T i")
      case (Some swm0)
      from mono[OF this] None show ?thesis by simp
    qed simp
    from None step obtain swm where
      new: "newSeriesWithMeasure d i (TrendAsNativeHistogram (config (fst st)))
              (trendStatsResolver (fst st)) = Inr swm" and
      st': "st' = ((fst st)\<lparr>tsdb := (tsdb (fst st))(i \<mapsto>
                     swm\<lparr>Latest := t, Measure := Add (Measure swm) x\<rparr>)\<rparr>,
                   mark i (snd st))"
      by (auto simp: addSample_def Let_def i_def t_def split: sum.splits)
    have notin: "i \<notin> set (snd st)"
      using adv[of i] None by (simp add: advanced_def)
    have ser: "Series swm = i" using new by (rule newSeriesWithMeasure_Series)
    have tab: "\<And>s. tsdb (fst st') s =
                 (if s = i then Some (swm\<lparr>Latest := t, Measure := Add (Measure swm) x\<rparr>)
                  else tsdb (fst st) s)"
      by (simp add: st')
    have sn: "set (snd st') = insert i (set (snd st))" by (auto simp: st' mark_def)
    have c1: "distinct (snd st')" using dist notin by (simp add: st' mark_def)
    have c2: "\<And>s. s \<in> set (snd st') \<longleftrightarrow> advanced T (tsdb (fst st')) s"
    proof -
      fix s
      show "s \<in> set (snd st') \<longleftrightarrow> advanced T (tsdb (fst st')) s"
      proof (cases "s = i")
        case True
        then show ?thesis by (simp add: sn advanced_def tab T0)
      next
        case False
        then have "advanced T (tsdb (fst st')) s = advanced T (tsdb (fst st)) s"
          by (simp add: advanced_def tab)
        with False adv[of s] show ?thesis by (simp add: sn)
      qed
    qed
    have c3: "\<And>s swm0. T s = Some swm0 \<Longrightarrow>
                \<exists>swm'. tsdb (fst st') s = Some swm' \<and> Latest swm0 \<le> Latest swm'"
    proof -
      fix s swm0 assume a: "T s = Some swm0"
      then have "s \<noteq> i" using T0 by auto
      with mono[OF a] show "\<exists>swm'. tsdb (fst st') s = Some swm' \<and> Latest swm0 \<le> Latest swm'"
        by (simp add: tab)
    qed
    have c4: "\<And>s. s \<in> set (snd st') \<Longrightarrow>
                \<exists>swm'. tsdb (fst st') s = Some swm' \<and> Latest swm' mod Millisecond = 0"
    proof -
      fix s assume a: "s \<in> set (snd st')"
      show "\<exists>swm'. tsdb (fst st') s = Some swm' \<and> Latest swm' mod Millisecond = 0"
      proof (cases "s = i")
        case True
        then show ?thesis by (simp add: tab t0)
      next
        case False
        with a have "s \<in> set (snd st)" by (simp add: sn)
        from aligned[OF this] False show ?thesis by (simp add: tab)
      qed
    qed
    have c5: "keyed T \<Longrightarrow> keyed (tsdb (fst st'))"
    proof -
      assume "keyed T"
      from key[OF this] ser show "keyed (tsdb (fst st'))" by (simp add: keyed_def tab)
    qed
    from c1 c2 c3 c4 c5 show ?thesis unfolding seenInv_def by blast
  next
    case (Some swm)
    show ?thesis
    proof (cases "After t (Latest swm)")
      case True
      with Some step have
        st': "st' = ((fst st)\<lparr>tsdb := (tsdb (fst st))(i \<mapsto>
                     swm\<lparr>Latest := t, Measure := Add (Measure swm) x\<rparr>)\<rparr>,
                   mark i (snd st))"
        by (auto simp: addSample_def Let_def i_def t_def)
      from True have lt: "Latest swm < t" by (simp add: After_def)
      have tab: "\<And>s. tsdb (fst st') s =
                 (if s = i then Some (swm\<lparr>Latest := t, Measure := Add (Measure swm) x\<rparr>)
                  else tsdb (fst st) s)"
        by (simp add: st')
      have sn: "set (snd st') = insert i (set (snd st))" by (auto simp: st' mark_def)
      have advi: "advanced T (tsdb (fst st')) i"
      proof (cases "T i")
        case None
        then show ?thesis by (simp add: advanced_def tab)
      next
        case (Some swm0)
        from mono[OF this] \<open>tsdb (fst st) i = Some swm\<close> have "Latest swm0 \<le> Latest swm"
          by simp
        with lt Some show ?thesis by (simp add: advanced_def tab)
      qed
      have c1: "distinct (snd st')" using dist by (simp add: st' mark_def)
      have c2: "\<And>s. s \<in> set (snd st') \<longleftrightarrow> advanced T (tsdb (fst st')) s"
      proof -
        fix s
        show "s \<in> set (snd st') \<longleftrightarrow> advanced T (tsdb (fst st')) s"
        proof (cases "s = i")
          case True
          with advi show ?thesis by (simp add: sn)
        next
          case False
          then have "advanced T (tsdb (fst st')) s = advanced T (tsdb (fst st)) s"
            by (simp add: advanced_def tab)
          with False adv[of s] show ?thesis by (simp add: sn)
        qed
      qed
      have c3: "\<And>s swm0. T s = Some swm0 \<Longrightarrow>
                \<exists>swm'. tsdb (fst st') s = Some swm' \<and> Latest swm0 \<le> Latest swm'"
      proof -
        fix s swm0 assume a: "T s = Some swm0"
        from mono[OF a] Some lt
        show "\<exists>swm'. tsdb (fst st') s = Some swm' \<and> Latest swm0 \<le> Latest swm'"
          by (cases "s = i") (auto simp: tab)
      qed
      have c4: "\<And>s. s \<in> set (snd st') \<Longrightarrow>
                \<exists>swm'. tsdb (fst st') s = Some swm' \<and> Latest swm' mod Millisecond = 0"
      proof -
        fix s assume a: "s \<in> set (snd st')"
        show "\<exists>swm'. tsdb (fst st') s = Some swm' \<and> Latest swm' mod Millisecond = 0"
        proof (cases "s = i")
          case True
          then show ?thesis by (simp add: tab t0)
        next
          case False
          with a have "s \<in> set (snd st)" by (simp add: sn)
          from aligned[OF this] False show ?thesis by (simp add: tab)
        qed
      qed
      have c5: "keyed T \<Longrightarrow> keyed (tsdb (fst st'))"
      proof -
        assume "keyed T"
        from key[OF this] Some show "keyed (tsdb (fst st'))" by (simp add: keyed_def tab)
      qed
      from c1 c2 c3 c4 c5 show ?thesis unfolding seenInv_def by blast
    next
      case False
      with Some step have
        st': "st' = ((fst st)\<lparr>tsdb := (tsdb (fst st))(i \<mapsto>
                     swm\<lparr>Measure := Add (Measure swm) x\<rparr>)\<rparr>, snd st)"
        by (auto simp: addSample_def Let_def i_def t_def)
      have tab: "\<And>s. tsdb (fst st') s =
                 (if s = i then Some (swm\<lparr>Measure := Add (Measure swm) x\<rparr>)
                  else tsdb (fst st) s)"
        by (simp add: st')
      have sn: "snd st' = snd st" by (simp add: st')
      have same: "\<And>s. advanced T (tsdb (fst st')) s = advanced T (tsdb (fst st)) s"
        using Some by (simp add: advanced_def tab split: option.splits)
      have c1: "distinct (snd st')" using dist by (simp add: sn)
      have c2: "\<And>s. s \<in> set (snd st') \<longleftrightarrow> advanced T (tsdb (fst st')) s"
        using adv same by (simp add: sn)
      have c3: "\<And>s swm0. T s = Some swm0 \<Longrightarrow>
                \<exists>swm'. tsdb (fst st') s = Some swm' \<and> Latest swm0 \<le> Latest swm'"
      proof -
        fix s swm0 assume a: "T s = Some swm0"
        from mono[OF a] Some
        show "\<exists>swm'. tsdb (fst st') s = Some swm' \<and> Latest swm0 \<le> Latest swm'"
          by (cases "s = i") (auto simp: tab)
      qed
      have c4: "\<And>s. s \<in> set (snd st') \<Longrightarrow>
                \<exists>swm'. tsdb (fst st') s = Some swm' \<and> Latest swm' mod Millisecond = 0"
      proof -
        fix s assume a: "s \<in> set (snd st')"
        then have "s \<in> set (snd st)" by (simp add: sn)
        from aligned[OF this] Some
        show "\<exists>swm'. tsdb (fst st') s = Some swm' \<and> Latest swm' mod Millisecond = 0"
          by (cases "s = i") (auto simp: tab)
      qed
      have c5: "keyed T \<Longrightarrow> keyed (tsdb (fst st'))"
      proof -
        assume "keyed T"
        from key[OF this] Some show "keyed (tsdb (fst st'))" by (simp add: keyed_def tab)
      qed
      from c1 c2 c3 c4 c5 show ?thesis unfolding seenInv_def by blast
    qed
  qed
qed

lemma seenInv_addSamples: "seenInv (tsdb ou) (fst (addSamples d (ou, []) xs))"
  by (rule addSamples_invariant[where P = "seenInv (tsdb ou)"])
     (auto intro: seenInv_init seenInv_step)

subsection \<open>The loop body against the per-sample algorithm of the specification\<close>

lemma newSeriesWithMeasure_spec:
  "newSeriesWithMeasure d s b tsr = Inr swm \<Longrightarrow>
     specNewSink b tsr s = Some (Measure swm) \<and> Series swm = s"
  by (auto simp: newSeriesWithMeasure_def specNewSink_def newNativeHistogramSink_def
        newExtendedTrendSink_def Counter_def Gauge_def Trend_def Rate_def Let_def
      split: if_splits sum.splits option.splits)

lemma swm_updates:
  "swm\<lparr>Latest := t, Measure := m\<rparr> = \<lparr>Series = Series swm, Measure = m, Latest = t\<rparr>"
  "swm\<lparr>Measure := m\<rparr> = \<lparr>Series = Series swm, Measure = m, Latest = Latest swm\<rparr>"
  by (cases swm; simp)+

lemma set_mark: "set (mark s seen) = insert s (set seen)"
  by (auto simp: mark_def)

lemma addSample_specStep:
  assumes "addSample d st x = Inr st'"
  shows "specStep (TrendAsNativeHistogram (config (fst st))) (trendStatsResolver (fst st))
           (tsdb (fst st), set (snd st)) x = Some (tsdb (fst st'), set (snd st'))"
proof (cases "tsdb (fst st) (TimeSeries x)")
  case None
  with assms obtain swm where
    new: "newSeriesWithMeasure d (TimeSeries x) (TrendAsNativeHistogram (config (fst st)))
            (trendStatsResolver (fst st)) = Inr swm" and
    st': "st' = ((fst st)\<lparr>tsdb := (tsdb (fst st))(TimeSeries x \<mapsto>
                   swm\<lparr>Latest := Truncate (Time x) Millisecond,
                       Measure := Add (Measure swm) x\<rparr>)\<rparr>,
                 mark (TimeSeries x) (snd st))"
    by (auto simp: addSample_def Let_def split: sum.splits)
  from newSeriesWithMeasure_spec[OF new] None show ?thesis
    by (simp add: specStep_def Let_def st' set_mark Truncate_Millisecond swm_updates)
next
  case (Some swm)
  with assms show ?thesis
    by (auto simp: addSample_def specStep_def Let_def After_def set_mark Truncate_Millisecond
        swm_updates split: if_splits)
qed

lemma addSamples_specRun:
  assumes "addSamples d st xs = (st', None)"
  shows "specRun (TrendAsNativeHistogram (config (fst st))) (trendStatsResolver (fst st))
           (tsdb (fst st), set (snd st)) xs = Some (tsdb (fst st'), set (snd st'))"
  using assms
proof (induction xs arbitrary: st)
  case Nil
  then show ?case by simp
next
  case (Cons x xs)
  show ?case
  proof (cases "addSample d st x")
    case (Inl p)
    with Cons.prems show ?thesis by simp
  next
    case (Inr st1)
    with Cons.prems have run: "addSamples d st1 xs = (st', None)" by simp
    from addSample_frame[OF Inr] Cons.IH[OF run] addSample_specStep[OF Inr]
    show ?thesis by simp
  qed
qed

subsection \<open>The encoding loop\<close>

lemma mapSeen_groups:
  "mapSeen d ou seen = Inr out \<Longrightarrow>
     \<exists>groups. out = concat groups \<and>
       list_all2 (\<lambda>s g. \<exists>swm. tsdb ou s = Some swm \<and> MapPrompb d swm = Inr g) seen groups"
proof (induction seen arbitrary: out)
  case Nil
  then show ?case by simp
next
  case (Cons s ss)
  from Cons.prems obtain swm g rest where
    a: "tsdb ou s = Some swm" and b: "MapPrompb d swm = Inr g" and
    c: "mapSeen d ou ss = Inr rest" and o: "out = g @ rest"
    by (auto split: option.splits sum.splits)
  from Cons.IH[OF c] obtain groups where
    g: "rest = concat groups" and
    l: "list_all2 (\<lambda>s g. \<exists>swm. tsdb ou s = Some swm \<and> MapPrompb d swm = Inr g) ss groups"
    by blast
  show ?case
    by (rule exI[of _ "g # groups"]) (use a b o g l in simp)
qed

lemma MapPrompb_mono:
  assumes "MapPrompb d swm = Inr g" and "Type (Metric (Series swm)) \<in> {Counter, Gauge, Rate}"
  shows "\<exists>v. g = [\<lparr>Labels = MapSeries d (Series swm) [],
                   Samples = [\<lparr>PbValue = v, Timestamp = UnixMilli (Latest swm)\<rparr>],
                   Histograms = []\<rparr>]"
  using assms
  by (auto simp: MapPrompb_def mapMonoSeries_def Let_def Counter_def Gauge_def Rate_def Trend_def
      split: if_splits Sink.splits)

lemma MapPrompb_trend:
  assumes "MapPrompb d swm = Inr g" and "Type (Metric (Series swm)) = Trend"
  shows "g = trendMapPrompb d (Measure swm) (Series swm) (Latest swm)"
  using assms
  by (auto simp: MapPrompb_def Let_def Counter_def Gauge_def Rate_def Trend_def
      split: if_splits Sink.splits)

text \<open>Every wire series of a Trend sink carries exactly one point or one histogram, at the
  time given.\<close>

lemma trendMapPrompb_points:
  assumes "ts \<in> set (trendMapPrompb d sink s t)"
  shows "length (Samples ts) + length (Histograms ts) = 1 \<and>
         (\<forall>p \<in> set (Samples ts). Timestamp p = UnixMilli t) \<and>
         (\<forall>h \<in> set (Histograms ts). HTimestamp h = UnixMilli t)"
  using assms by (cases sink) (auto simp: trendMapPrompb_def)

section \<open>The claims\<close>

lemma addSamples_panic:
  "addSamples d st xs = (st', Some p) \<Longrightarrow>
     \<exists>pre x post. xs = pre @ x # post \<and> addSamples d st pre = (st', None) \<and>
       addSample d st' x = Inl p"
proof (induction xs arbitrary: st)
  case Nil
  then show ?case by simp
next
  case (Cons y ys)
  show ?case
  proof (cases "addSample d st y")
    case (Inl q)
    with Cons.prems have "st' = st" "q = p" by simp_all
    with Inl show ?thesis by (intro exI[of _ "[]"] exI[of _ y] exI[of _ ys]) simp
  next
    case (Inr st1)
    with Cons.prems have "addSamples d st1 ys = (st', Some p)" by simp
    from Cons.IH[OF this] obtain pre x post where
      "ys = pre @ x # post" "addSamples d st1 pre = (st', None)" "addSample d st' x = Inl p"
      by blast
    with Inr show ?thesis by (intro exI[of _ "y # pre"] exI[of _ x] exI[of _ post]) simp
  qed
qed

lemma addSample_Inl:
  "addSample d st x = Inl p \<Longrightarrow>
     tsdb (fst st) (TimeSeries x) = None \<and>
     newSeriesWithMeasure d (TimeSeries x) (TrendAsNativeHistogram (config (fst st)))
       (trendStatsResolver (fst st)) = Inl p"
  by (auto simp: addSample_def Let_def split: option.splits sum.splits if_splits)

lemma exBatch_run:
  "addContainers exDeps (exOutput, []) exBatch =
     ((exOutput\<lparr>tsdb := [exReqs \<mapsto> exReqsState 6 2000000]\<rparr>, [exReqs]), None)"
  by (simp add: exBatch_def addSample_def exOutput_def exConfig_def exSample_def exReqs_def
        exSeries_def exReqsState_def newSeriesWithMeasure_def Counter_def Truncate_def
        Millisecond_def After_def mark_def unixEpoch_def Let_def)

lemma exUnknown_run:
  "addContainers exDeps (exOutput, []) [[exSample exReqs 1500000 1, exSample exUnknown 1700000 1]] =
     ((exOutput\<lparr>tsdb := [exReqs \<mapsto> exReqsState 1 1000000]\<rparr>, [exReqs]),
      Some (UnsupportedMetricType 7))"
  by (simp add: addSample_def exOutput_def exConfig_def exSample_def exReqs_def exUnknown_def
        exSeries_def exReqsState_def newSeriesWithMeasure_def Counter_def Gauge_def Trend_def
        Rate_def Truncate_def Millisecond_def After_def mark_def unixEpoch_def Let_def)

text \<open>The sink factory against the sinks of the specification: it returns a series state
  with the sink of the kind, for the identity given, whenever the kind is recognised
  (and, for a classic Trend, the resolver table is accepted); it panics on an unrecognised
  kind, where the specification aborts.\<close>

lemma newSeriesWithMeasure_total:
  assumes "Type (Metric s) = Trend \<longrightarrow> b \<or> trendSinkError d tsr = None"
  shows "(case specNewSink b tsr s of
            Some sink \<Rightarrow>
              newSeriesWithMeasure d s b tsr = Inr \<lparr>Series = s, Measure = sink, Latest = 0\<rparr>
          | None \<Rightarrow>
              newSeriesWithMeasure d s b tsr = Inl (UnsupportedMetricType (Type (Metric s))))"
  using assms
  by (auto simp: newSeriesWithMeasure_def specNewSink_def newNativeHistogramSink_def
        newExtendedTrendSink_def Counter_def Gauge_def Trend_def Rate_def Let_def)

text \<open>The outcome of the loop body and of the loops, as the specification sees it: the
  table and the set of marked identities, or an abort.\<close>

lemma addSample_specStep_total:
  assumes "Type (Metric (TimeSeries x)) = Trend \<longrightarrow>
             TrendAsNativeHistogram (config (fst st)) \<or>
             trendSinkError d (trendStatsResolver (fst st)) = None"
  shows "(case addSample d st x of
            Inr st' \<Rightarrow> Some (tsdb (fst st'), set (snd st'))
          | Inl p \<Rightarrow> None) =
         specStep (TrendAsNativeHistogram (config (fst st))) (trendStatsResolver (fst st))
           (tsdb (fst st), set (snd st)) x"
proof (cases "addSample d st x")
  case (Inr st')
  from addSample_specStep[OF this] Inr show ?thesis by simp
next
  case (Inl p)
  from addSample_Inl[OF this] have
    n: "tsdb (fst st) (TimeSeries x) = None" and
    f: "newSeriesWithMeasure d (TimeSeries x) (TrendAsNativeHistogram (config (fst st)))
          (trendStatsResolver (fst st)) = Inl p" by simp_all
  have "specNewSink (TrendAsNativeHistogram (config (fst st))) (trendStatsResolver (fst st))
          (TimeSeries x) = None"
    using newSeriesWithMeasure_total[OF assms] f
    by (cases "specNewSink (TrendAsNativeHistogram (config (fst st)))
                 (trendStatsResolver (fst st)) (TimeSeries x)") simp_all
  with n Inl show ?thesis by (simp add: specStep_def Let_def)
qed

lemma addSamples_specRun_total:
  assumes "\<forall>x \<in> set xs. Type (Metric (TimeSeries x)) = Trend \<longrightarrow>
             TrendAsNativeHistogram (config (fst st)) \<or>
             trendSinkError d (trendStatsResolver (fst st)) = None"
  shows "(case addSamples d st xs of
            (st', None) \<Rightarrow> Some (tsdb (fst st'), set (snd st'))
          | (st', Some p) \<Rightarrow> None) =
         specRun (TrendAsNativeHistogram (config (fst st))) (trendStatsResolver (fst st))
           (tsdb (fst st), set (snd st)) xs"
  using assms
proof (induction xs arbitrary: st)
  case Nil
  then show ?case by simp
next
  case (Cons x xs)
  from Cons.prems have hx: "Type (Metric (TimeSeries x)) = Trend \<longrightarrow>
             TrendAsNativeHistogram (config (fst st)) \<or>
             trendSinkError d (trendStatsResolver (fst st)) = None" by simp
  note step = addSample_specStep_total[OF hx]
  show ?case
  proof (cases "addSample d st x")
    case (Inl p)
    with step show ?thesis by simp
  next
    case (Inr st1)
    note fr = addSample_frame[OF Inr]
    from Cons.prems fr have "\<forall>y \<in> set xs. Type (Metric (TimeSeries y)) = Trend \<longrightarrow>
             TrendAsNativeHistogram (config (fst st1)) \<or>
             trendSinkError d (trendStatsResolver (fst st1)) = None" by simp
    note ih = Cons.IH[OF this]
    have ss: "specStep (TrendAsNativeHistogram (config (fst st))) (trendStatsResolver (fst st))
                (tsdb (fst st), set (snd st)) x = Some (tsdb (fst st1), set (snd st1))"
      using step Inr by simp
    have "(case addSamples d st (x # xs) of
             (st', None) \<Rightarrow> Some (tsdb (fst st'), set (snd st'))
           | (st', Some p) \<Rightarrow> None) =
          specRun (TrendAsNativeHistogram (config (fst st1))) (trendStatsResolver (fst st1))
            (tsdb (fst st1), set (snd st1)) xs"
      using ih Inr by simp
    also have "\<dots> = specRun (TrendAsNativeHistogram (config (fst st)))
                        (trendStatsResolver (fst st)) (tsdb (fst st), set (snd st)) (x # xs)"
      using fr by (simp add: ss)
    finally show ?thesis .
  qed
qed

text \<open>
  Claim C1. The loops of \<open>convertToPbSeries\<close> process the samples of all containers in
  arrival order by the per-sample algorithm of the specification (\<open>specRun\<close>, section 4.1:
  for an identity without series state, create one with the sink of the kind, latest set
  to the floored time, and mark the identity; for an identity with one, set latest and
  mark when the floored time is strictly greater, and leave latest and the mark alone
  when it is equal or less; merge the value into the sink in every case; abort on an
  unrecognised kind). Provided the classic Trend sink accepts the resolver table whenever
  a Trend sample is processed, the loops return exactly when the algorithm does, with its
  table and its set of marked identities, and they stop in a panic exactly when the
  algorithm aborts; the panic is then the one of the sink factory for the unrecognised
  kind of a sample whose identity has no state, the samples before it having been
  processed by the algorithm.
\<close>

theorem aggregation_follows_algorithm:
  assumes "\<forall>x \<in> set (concat cs). Type (Metric (TimeSeries x)) = Trend \<longrightarrow>
             TrendAsNativeHistogram (config ou) \<or> trendSinkError d (trendStatsResolver ou) = None"
  shows "(case addContainers d (ou, []) cs of
            ((ou', seen), None) \<Rightarrow> Some (tsdb ou', set seen)
          | ((ou', seen), Some p) \<Rightarrow> None) =
         specRun (TrendAsNativeHistogram (config ou)) (trendStatsResolver ou) (tsdb ou, {})
           (concat cs) \<and>
         (addContainers d (ou, []) cs = ((ou', seen), Some p) \<longrightarrow>
            (\<exists>pre x post. concat cs = pre @ x # post \<and>
               specRun (TrendAsNativeHistogram (config ou)) (trendStatsResolver ou) (tsdb ou, {})
                 pre = Some (tsdb ou', set seen) \<and>
               specStep (TrendAsNativeHistogram (config ou)) (trendStatsResolver ou)
                 (tsdb ou', set seen) x = None \<and>
               tsdb ou' (TimeSeries x) = None \<and>
               Type (Metric (TimeSeries x)) \<notin> {Counter, Gauge, Rate, Trend} \<and>
               p = UnsupportedMetricType (Type (Metric (TimeSeries x)))))"
proof (intro conjI impI)
  from addSamples_specRun_total[of "concat cs" "(ou, [])" d] assms
  have "(case addSamples d (ou, []) (concat cs) of
            (st', None) \<Rightarrow> Some (tsdb (fst st'), set (snd st'))
          | (st', Some p) \<Rightarrow> None) =
         specRun (TrendAsNativeHistogram (config ou)) (trendStatsResolver ou) (tsdb ou, {})
           (concat cs)" by simp
  moreover have "(case addContainers d (ou, []) cs of
            ((ou', seen), None) \<Rightarrow> Some (tsdb ou', set seen)
          | ((ou', seen), Some p) \<Rightarrow> None) =
         (case addSamples d (ou, []) (concat cs) of
            (st', None) \<Rightarrow> Some (tsdb (fst st'), set (snd st'))
          | (st', Some p) \<Rightarrow> None)"
    by (cases "addSamples d (ou, []) (concat cs)")
       (auto simp: addContainers_concat split: prod.splits option.splits)
  ultimately show "(case addContainers d (ou, []) cs of
            ((ou', seen), None) \<Rightarrow> Some (tsdb ou', set seen)
          | ((ou', seen), Some p) \<Rightarrow> None) =
         specRun (TrendAsNativeHistogram (config ou)) (trendStatsResolver ou) (tsdb ou, {})
           (concat cs)"
    by (rule trans[rotated])
next
  assume "addContainers d (ou, []) cs = ((ou', seen), Some p)"
  then have "addSamples d (ou, []) (concat cs) = ((ou', seen), Some p)"
    by (simp add: addContainers_concat)
  from addSamples_panic[OF this] obtain pre x post where
    split: "concat cs = pre @ x # post" and
    run: "addSamples d (ou, []) pre = ((ou', seen), None)" and
    stop: "addSample d (ou', seen) x = Inl p" by blast
  have fr: "config ou' = config ou" "trendStatsResolver ou' = trendStatsResolver ou"
    using addSamples_frame[of d "(ou, [])" pre] run by simp_all
  have hx: "Type (Metric (TimeSeries x)) = Trend \<longrightarrow>
              TrendAsNativeHistogram (config ou) \<or> trendSinkError d (trendStatsResolver ou) = None"
    using assms split by simp
  from addSample_Inl[OF stop] have
    n: "tsdb ou' (TimeSeries x) = None" and
    f: "newSeriesWithMeasure d (TimeSeries x) (TrendAsNativeHistogram (config ou))
          (trendStatsResolver ou) = Inl p" by (simp_all add: fr)
  have sn: "specNewSink (TrendAsNativeHistogram (config ou)) (trendStatsResolver ou)
              (TimeSeries x) = None" and
    p: "p = UnsupportedMetricType (Type (Metric (TimeSeries x)))"
    using newSeriesWithMeasure_total[OF hx] f
    by (cases "specNewSink (TrendAsNativeHistogram (config ou)) (trendStatsResolver ou)
                 (TimeSeries x)"; simp)+
  have k: "Type (Metric (TimeSeries x)) \<notin> {Counter, Gauge, Rate, Trend}"
    using sn by (auto simp: specNewSink_def Let_def split: if_splits)
  have ab: "specStep (TrendAsNativeHistogram (config ou)) (trendStatsResolver ou)
              (tsdb ou', set seen) x = None"
    using n sn by (simp add: specStep_def Let_def)
  from addSamples_specRun[OF run] split n p k ab
  show "\<exists>pre x post. concat cs = pre @ x # post \<and>
               specRun (TrendAsNativeHistogram (config ou)) (trendStatsResolver ou) (tsdb ou, {})
                 pre = Some (tsdb ou', set seen) \<and>
               specStep (TrendAsNativeHistogram (config ou)) (trendStatsResolver ou)
                 (tsdb ou', set seen) x = None \<and>
               tsdb ou' (TimeSeries x) = None \<and>
               Type (Metric (TimeSeries x)) \<notin> {Counter, Gauge, Rate, Trend} \<and>
               p = UnsupportedMetricType (Type (Metric (TimeSeries x)))"
    by (intro exI[of _ pre] exI[of _ x] exI[of _ post]) simp
qed

theorem aggregation_follows_algorithm_witness:
  "addContainers exDeps (exOutput, []) exBatch =
     ((exOutput\<lparr>tsdb := [exReqs \<mapsto> exReqsState 6 2000000]\<rparr>, [exReqs]), None) \<and>
   specRun False [(''p99'', Column ''p(99)'')] (Map.empty, {}) (concat exBatch) =
     Some ([exReqs \<mapsto> exReqsState 6 2000000], {exReqs}) \<and>
   addContainers exDeps (exOutput, [])
       [[exSample exReqs 1500000 1, exSample exUnknown 1700000 1]] =
     ((exOutput\<lparr>tsdb := [exReqs \<mapsto> exReqsState 1 1000000]\<rparr>, [exReqs]),
      Some (UnsupportedMetricType 7)) \<and>
   specRun False [(''p99'', Column ''p(99)'')] (Map.empty, {})
       (concat [[exSample exReqs 1500000 1, exSample exUnknown 1700000 1]]) = None \<and>
   (\<exists>pre x post.
      concat [[exSample exReqs 1500000 1, exSample exUnknown 1700000 1]] = pre @ x # post \<and>
      specRun False [(''p99'', Column ''p(99)'')] (Map.empty, {}) pre =
        Some ([exReqs \<mapsto> exReqsState 1 1000000], {exReqs}) \<and>
      specStep False [(''p99'', Column ''p(99)'')]
        ([exReqs \<mapsto> exReqsState 1 1000000], {exReqs}) x = None)"
proof -
  have cfg: "TrendAsNativeHistogram (config exOutput) = False"
    "trendStatsResolver exOutput = [(''p99'', Column ''p(99)'')]" "tsdb exOutput = Map.empty"
    by (simp_all add: exOutput_def exConfig_def)
  have acc: "trendSinkError exDeps [(''p99'', Column ''p(99)'')] = None"
    by (simp add: exDeps_def)
  have h1: "\<forall>x \<in> set (concat exBatch). Type (Metric (TimeSeries x)) = Trend \<longrightarrow>
              TrendAsNativeHistogram (config exOutput) \<or>
              trendSinkError exDeps (trendStatsResolver exOutput) = None"
    unfolding cfg acc by simp
  have h2: "\<forall>x \<in> set (concat [[exSample exReqs 1500000 1, exSample exUnknown 1700000 1]]).
              Type (Metric (TimeSeries x)) = Trend \<longrightarrow>
              TrendAsNativeHistogram (config exOutput) \<or>
              trendSinkError exDeps (trendStatsResolver exOutput) = None"
    unfolding cfg acc by simp
  have a: "specRun False [(''p99'', Column ''p(99)'')] (Map.empty, {}) (concat exBatch) =
             Some ([exReqs \<mapsto> exReqsState 6 2000000], {exReqs})"
    using aggregation_follows_algorithm[OF h1, THEN conjunct1]
    unfolding exBatch_run cfg by simp
  have b: "specRun False [(''p99'', Column ''p(99)'')] (Map.empty, {})
             (concat [[exSample exReqs 1500000 1, exSample exUnknown 1700000 1]]) = None"
    using aggregation_follows_algorithm[OF h2, THEN conjunct1]
    unfolding exUnknown_run cfg by simp
  from aggregation_follows_algorithm[OF h2, THEN conjunct2, rule_format, OF exUnknown_run]
  obtain pre x post where
    c1: "concat [[exSample exReqs 1500000 1, exSample exUnknown 1700000 1]] = pre @ x # post" and
    c2: "specRun (TrendAsNativeHistogram (config exOutput)) (trendStatsResolver exOutput)
           (tsdb exOutput, {}) pre =
         Some (tsdb (exOutput\<lparr>tsdb := [exReqs \<mapsto> exReqsState 1 1000000]\<rparr>), set [exReqs])" and
    c3: "specStep (TrendAsNativeHistogram (config exOutput)) (trendStatsResolver exOutput)
           (tsdb (exOutput\<lparr>tsdb := [exReqs \<mapsto> exReqsState 1 1000000]\<rparr>), set [exReqs]) x = None"
    by blast
  have c: "\<exists>pre x post.
      concat [[exSample exReqs 1500000 1, exSample exUnknown 1700000 1]] = pre @ x # post \<and>
      specRun False [(''p99'', Column ''p(99)'')] (Map.empty, {}) pre =
        Some ([exReqs \<mapsto> exReqsState 1 1000000], {exReqs}) \<and>
      specStep False [(''p99'', Column ''p(99)'')]
        ([exReqs \<mapsto> exReqsState 1 1000000], {exReqs}) x = None"
    using c1 c2 c3 unfolding cfg by (intro exI[of _ pre] exI[of _ x] exI[of _ post]) simp
  from a b c exBatch_run exUnknown_run show ?thesis by blast
qed

text \<open>
  Claim C3. The stored latest truncated timestamp of a series never decreases: whatever
  containers \<open>convertToPbSeries\<close> processes (and whether or not a panic stops it), a
  series that the table held before is still held afterwards with a latest timestamp that
  is not smaller; and when every incoming sample of the series has a truncated time equal
  to or smaller than the stored one, the stored one is unchanged.
\<close>

theorem latest_nondecreasing:
  assumes "tsdb ou s = Some swm"
  shows "\<exists>swm'. tsdb (fst (convertToPbSeries d ou cs)) s = Some swm' \<and>
           Latest swm \<le> Latest swm' \<and>
           ((\<forall>x \<in> set (concat cs). TimeSeries x = s \<longrightarrow>
                Truncate (Time x) Millisecond \<le> Latest swm)
              \<longrightarrow> Latest swm' = Latest swm)"
  using addSamples_existing[of "(ou, [])" s swm d "concat cs"] assms
  by (simp add: convertToPbSeries_fst)

lemma exOutput1_older:
  "fst (convertToPbSeries exDeps exOutput1 [[exSample exReqs 1000000 5]]) =
     exOutput\<lparr>tsdb := [exReqs \<mapsto> exReqsState 11 2000000]\<rparr>"
  by (simp add: convertToPbSeries_def addSample_def exOutput1_def exOutput_def exConfig_def
        exSample_def exReqs_def exSeries_def exReqsState_def Truncate_def Millisecond_def
        After_def mark_def unixEpoch_def MapPrompb_def Counter_def Let_def)

theorem latest_nondecreasing_witness:
  "tsdb exOutput1 exReqs = Some (exReqsState 6 2000000) \<and>
   tsdb (fst (convertToPbSeries exDeps exOutput1 [[exSample exReqs 1000000 5]])) exReqs =
     Some (exReqsState 11 2000000) \<and>
   (\<exists>swm'. tsdb (fst (convertToPbSeries exDeps exOutput1 [[exSample exReqs 1000000 5]])) exReqs =
        Some swm' \<and>
      Latest (exReqsState 6 2000000) \<le> Latest swm' \<and>
      Latest swm' = Latest (exReqsState 6 2000000))"
proof -
  have h: "tsdb exOutput1 exReqs = Some (exReqsState 6 2000000)"
    by (simp add: exOutput1_def)
  have older: "\<forall>x \<in> set (concat [[exSample exReqs 1000000 5]]). TimeSeries x = exReqs \<longrightarrow>
                 Truncate (Time x) Millisecond \<le> Latest (exReqsState 6 2000000)"
    by (simp add: exSample_def exReqsState_def Truncate_def Millisecond_def unixEpoch_def)
  from latest_nondecreasing[OF h, of exDeps "[[exSample exReqs 1000000 5]]"] older
  have "\<exists>swm'. tsdb (fst (convertToPbSeries exDeps exOutput1 [[exSample exReqs 1000000 5]]))
                  exReqs = Some swm' \<and>
          Latest (exReqsState 6 2000000) \<le> Latest swm' \<and>
          Latest swm' = Latest (exReqsState 6 2000000)"
    by blast
  with h exOutput1_older show ?thesis by simp
qed

lemma MapPrompb_points:
  assumes "MapPrompb d swm = Inr g" and "ts \<in> set g"
  shows "length (Samples ts) + length (Histograms ts) = 1 \<and>
         (\<forall>p \<in> set (Samples ts). Timestamp p = UnixMilli (Latest swm)) \<and>
         (\<forall>h \<in> set (Histograms ts). HTimestamp h = UnixMilli (Latest swm))"
proof (cases "Type (Metric (Series swm)) = Trend")
  case True
  from MapPrompb_trend[OF assms(1) True] assms(2)
  have "ts \<in> set (trendMapPrompb d (Measure swm) (Series swm) (Latest swm))" by simp
  then show ?thesis by (rule trendMapPrompb_points)
next
  case False
  have "Type (Metric (Series swm)) \<in> {Counter, Gauge, Rate}"
  proof (rule ccontr)
    assume "Type (Metric (Series swm)) \<notin> {Counter, Gauge, Rate}"
    with False have "MapPrompb d swm =
        Inl (UnrecognizedMetricType (Name (Metric (Series swm))) (Type (Metric (Series swm))))"
      by (simp add: MapPrompb_def Let_def)
    with assms(1) show False by simp
  qed
  from MapPrompb_mono[OF assms(1) this] assms(2) show ?thesis by auto
qed

lemma MapPrompb_trend_labels:
  assumes "MapPrompb d swm = Inr g" and "Type (Metric (Series swm)) = Trend"
  shows "(\<forall>tsr vals. Measure swm = ExtendedTrendSink tsr vals \<longrightarrow>
            map Labels g = map (\<lambda>kv. MapSeries d (Series swm) (fst kv)) tsr) \<and>
         (\<forall>m vals. Measure swm = NativeHistogramSink m vals \<longrightarrow>
            (\<exists>h. g = [\<lparr>Labels = MapSeries d (Series swm) [], Samples = [],
                        Histograms = [h]\<rparr>]))"
  using MapPrompb_trend[OF assms] by (auto simp: trendMapPrompb_def)

lemma exBatch_convert:
  "convertToPbSeries exDeps exOutput exBatch = (exOutput1, Inr [exReqsPoint 6 2])"
  unfolding convertToPbSeries_def exBatch_run
  by (simp add: exOutput1_def MapPrompb_def mapMonoSeries_def exReqsState_def exReqs_def
        exSeries_def exDeps_def exReqsPoint_def UnixMilli_def wrap64_def Counter_def Let_def)

text \<open>
  Claim C2 as stated fails for a classic Trend with more than one requested statistic.
  With the two statistics \<open>p(95)\<close> and \<open>p(99)\<close> configured, one flush cycle with a single
  sample of a Trend identity gives two wire points for that identity, both at timestamp
  1: one in the wire series of each statistic.
\<close>

theorem two_points_for_classic_trend_counterexample:
  "snd (convertToPbSeries exDeps exOutput2 [[exSample exTrend 1500000 7]]) =
     Inr [exTrendPoint ''p95'' 7 1, exTrendPoint ''p99'' 7 1]"
  by (simp add: convertToPbSeries_def addSample_def exOutput2_def exOutput_def exConfig_def
        exSample_def exTrend_def exSeries_def newSeriesWithMeasure_def newExtendedTrendSink_def
        Counter_def Gauge_def Trend_def Rate_def Truncate_def Millisecond_def After_def mark_def
        MapPrompb_def trendMapPrompb_def exDeps_def exTrendPoint_def UnixMilli_def wrap64_def
        unixEpoch_def Let_def)

text \<open>
  Claim C2, amended. In every flush cycle the wire output of \<open>convertToPbSeries\<close> is the
  concatenation of one encoding per identity marked in the cycle: the marked identities
  are pairwise distinct, they are exactly the identities that advanced in the cycle (new
  in the table, or held with a strictly greater latest timestamp than before), and each is
  encoded once, from its series state. Every wire series of an encoding carries exactly
  one point or exactly one histogram, at the latest truncated time of the identity in
  epoch milliseconds, so that no wire series holds two points with one timestamp however
  many samples of the identity fall into one millisecond. The encoding of a Counter,
  Gauge or Rate identity is one wire series; that of a native-histogram Trend is one wire
  series with one histogram; that of a classic Trend is one wire series per requested
  statistic. An identity that the table held before the cycle is encoded only with a
  strictly greater latest time, and, within the range of \<open>int64\<close> milliseconds, at a
  strictly greater millisecond timestamp.
\<close>

theorem one_encoding_per_advanced_identity:
  assumes "convertToPbSeries d ou cs = (ou', Inr out)" and "keyed (tsdb ou)"
  shows "\<exists>seen groups.
           distinct seen \<and> (\<forall>s. s \<in> set seen \<longleftrightarrow> advanced (tsdb ou) (tsdb ou') s) \<and>
           out = concat groups \<and>
           list_all2 (\<lambda>s g. \<exists>swm. tsdb ou' s = Some swm \<and> Series swm = s \<and>
               MapPrompb d swm = Inr g \<and>
               (\<forall>ts \<in> set g.
                  length (Samples ts) + length (Histograms ts) = 1 \<and>
                  (\<forall>p \<in> set (Samples ts). Timestamp p = UnixMilli (Latest swm)) \<and>
                  (\<forall>h \<in> set (Histograms ts). HTimestamp h = UnixMilli (Latest swm))) \<and>
               (\<forall>swm0. tsdb ou s = Some swm0 \<longrightarrow>
                  Latest swm0 < Latest swm \<and>
                  (fitsInt64 ((Latest swm0 - unixEpoch) div 1000000) \<and>
                   fitsInt64 ((Latest swm - unixEpoch) div 1000000) \<longrightarrow>
                   UnixMilli (Latest swm0) < UnixMilli (Latest swm))) \<and>
               (Type (Metric s) \<in> {Counter, Gauge, Rate} \<longrightarrow>
                  (\<exists>v. g = [\<lparr>Labels = MapSeries d s [],
                              Samples = [\<lparr>PbValue = v, Timestamp = UnixMilli (Latest swm)\<rparr>],
                              Histograms = []\<rparr>])) \<and>
               (Type (Metric s) = Trend \<longrightarrow>
                  (\<forall>tsr vals. Measure swm = ExtendedTrendSink tsr vals \<longrightarrow>
                     map Labels g = map (\<lambda>kv. MapSeries d s (fst kv)) tsr) \<and>
                  (\<forall>m vals. Measure swm = NativeHistogramSink m vals \<longrightarrow>
                     (\<exists>h. g = [\<lparr>Labels = MapSeries d s [], Samples = [],
                                 Histograms = [h]\<rparr>]))))
             seen groups"
proof -
  obtain st p where run: "addSamples d (ou, []) (concat cs) = (st, p)"
    by (cases "addSamples d (ou, []) (concat cs)")
  obtain ou1 seen where st: "st = (ou1, seen)" by (cases st)
  from assms(1) run st have p: "p = None" and ou': "ou1 = ou'" and
    enc: "mapSeen d ou' seen = Inr out"
    by (auto simp: convertToPbSeries_def addContainers_concat split: option.splits)
  from seenInv_addSamples[of ou d "concat cs"] run st ou'
  have inv: "seenInv (tsdb ou) (ou', seen)" by simp
  then have dist: "distinct seen"
    and adv: "\<And>s. s \<in> set seen \<longleftrightarrow> advanced (tsdb ou) (tsdb ou') s"
    and aligned: "\<And>s. s \<in> set seen \<Longrightarrow>
                 \<exists>swm'. tsdb ou' s = Some swm' \<and> Latest swm' mod Millisecond = 0"
    and key: "keyed (tsdb ou) \<Longrightarrow> keyed (tsdb ou')"
    unfolding seenInv_def by simp_all
  from mapSeen_groups[OF enc] obtain groups where
    out: "out = concat groups" and
    l: "list_all2 (\<lambda>s g. \<exists>swm. tsdb ou' s = Some swm \<and> MapPrompb d swm = Inr g) seen groups"
    by blast
  have k': "keyed (tsdb ou')" using key assms(2) by simp
  have "list_all2 (\<lambda>s g. \<exists>swm. tsdb ou' s = Some swm \<and> Series swm = s \<and>
               MapPrompb d swm = Inr g \<and>
               (\<forall>ts \<in> set g.
                  length (Samples ts) + length (Histograms ts) = 1 \<and>
                  (\<forall>p \<in> set (Samples ts). Timestamp p = UnixMilli (Latest swm)) \<and>
                  (\<forall>h \<in> set (Histograms ts). HTimestamp h = UnixMilli (Latest swm))) \<and>
               (\<forall>swm0. tsdb ou s = Some swm0 \<longrightarrow>
                  Latest swm0 < Latest swm \<and>
                  (fitsInt64 ((Latest swm0 - unixEpoch) div 1000000) \<and>
                   fitsInt64 ((Latest swm - unixEpoch) div 1000000) \<longrightarrow>
                   UnixMilli (Latest swm0) < UnixMilli (Latest swm))) \<and>
               (Type (Metric s) \<in> {Counter, Gauge, Rate} \<longrightarrow>
                  (\<exists>v. g = [\<lparr>Labels = MapSeries d s [],
                              Samples = [\<lparr>PbValue = v, Timestamp = UnixMilli (Latest swm)\<rparr>],
                              Histograms = []\<rparr>])) \<and>
               (Type (Metric s) = Trend \<longrightarrow>
                  (\<forall>tsr vals. Measure swm = ExtendedTrendSink tsr vals \<longrightarrow>
                     map Labels g = map (\<lambda>kv. MapSeries d s (fst kv)) tsr) \<and>
                  (\<forall>m vals. Measure swm = NativeHistogramSink m vals \<longrightarrow>
                     (\<exists>h. g = [\<lparr>Labels = MapSeries d s [], Samples = [],
                                 Histograms = [h]\<rparr>]))))
             seen groups"
  proof (rule list.rel_mono_strong[OF l])
    fix s g
    assume sin: "s \<in> set seen" and "g \<in> set groups"
      and "\<exists>swm. tsdb ou' s = Some swm \<and> MapPrompb d swm = Inr g"
    then obtain swm where a: "tsdb ou' s = Some swm" and b: "MapPrompb d swm = Inr g"
      by blast
    have ser: "Series swm = s" using k' a by (simp add: keyed_def)
    from aligned[OF sin] a have al: "Latest swm mod Millisecond = 0" by simp
    have pts: "\<forall>ts \<in> set g.
                  length (Samples ts) + length (Histograms ts) = 1 \<and>
                  (\<forall>p \<in> set (Samples ts). Timestamp p = UnixMilli (Latest swm)) \<and>
                  (\<forall>h \<in> set (Histograms ts). HTimestamp h = UnixMilli (Latest swm))"
      using MapPrompb_points[OF b] by blast
    have strict: "\<forall>swm0. tsdb ou s = Some swm0 \<longrightarrow>
                  Latest swm0 < Latest swm \<and>
                  (fitsInt64 ((Latest swm0 - unixEpoch) div 1000000) \<and>
                   fitsInt64 ((Latest swm - unixEpoch) div 1000000) \<longrightarrow>
                   UnixMilli (Latest swm0) < UnixMilli (Latest swm))"
    proof (intro allI impI conjI)
      fix swm0 assume c: "tsdb ou s = Some swm0"
      from adv[of s] sin a c show lt: "Latest swm0 < Latest swm" by (simp add: advanced_def)
      assume "fitsInt64 ((Latest swm0 - unixEpoch) div 1000000) \<and>
              fitsInt64 ((Latest swm - unixEpoch) div 1000000)"
      with UnixMilli_strict[OF lt al]
      show "UnixMilli (Latest swm0) < UnixMilli (Latest swm)" by blast
    qed
    have mono: "Type (Metric s) \<in> {Counter, Gauge, Rate} \<longrightarrow>
                  (\<exists>v. g = [\<lparr>Labels = MapSeries d s [],
                              Samples = [\<lparr>PbValue = v, Timestamp = UnixMilli (Latest swm)\<rparr>],
                              Histograms = []\<rparr>])"
      using MapPrompb_mono[OF b] ser by simp
    have trend: "Type (Metric s) = Trend \<longrightarrow>
                  (\<forall>tsr vals. Measure swm = ExtendedTrendSink tsr vals \<longrightarrow>
                     map Labels g = map (\<lambda>kv. MapSeries d s (fst kv)) tsr) \<and>
                  (\<forall>m vals. Measure swm = NativeHistogramSink m vals \<longrightarrow>
                     (\<exists>h. g = [\<lparr>Labels = MapSeries d s [], Samples = [],
                                 Histograms = [h]\<rparr>]))"
      using MapPrompb_trend_labels[OF b] ser by simp
    from a ser b pts strict mono trend
    show "\<exists>swm. tsdb ou' s = Some swm \<and> Series swm = s \<and>
               MapPrompb d swm = Inr g \<and>
               (\<forall>ts \<in> set g.
                  length (Samples ts) + length (Histograms ts) = 1 \<and>
                  (\<forall>p \<in> set (Samples ts). Timestamp p = UnixMilli (Latest swm)) \<and>
                  (\<forall>h \<in> set (Histograms ts). HTimestamp h = UnixMilli (Latest swm))) \<and>
               (\<forall>swm0. tsdb ou s = Some swm0 \<longrightarrow>
                  Latest swm0 < Latest swm \<and>
                  (fitsInt64 ((Latest swm0 - unixEpoch) div 1000000) \<and>
                   fitsInt64 ((Latest swm - unixEpoch) div 1000000) \<longrightarrow>
                   UnixMilli (Latest swm0) < UnixMilli (Latest swm))) \<and>
               (Type (Metric s) \<in> {Counter, Gauge, Rate} \<longrightarrow>
                  (\<exists>v. g = [\<lparr>Labels = MapSeries d s [],
                              Samples = [\<lparr>PbValue = v, Timestamp = UnixMilli (Latest swm)\<rparr>],
                              Histograms = []\<rparr>])) \<and>
               (Type (Metric s) = Trend \<longrightarrow>
                  (\<forall>tsr vals. Measure swm = ExtendedTrendSink tsr vals \<longrightarrow>
                     map Labels g = map (\<lambda>kv. MapSeries d s (fst kv)) tsr) \<and>
                  (\<forall>m vals. Measure swm = NativeHistogramSink m vals \<longrightarrow>
                     (\<exists>h. g = [\<lparr>Labels = MapSeries d s [], Samples = [],
                                 Histograms = [h]\<rparr>])))"
      by (intro exI[of _ swm] conjI)
  qed
  with dist adv out show ?thesis by blast
qed

theorem one_encoding_per_advanced_identity_witness:
  "convertToPbSeries exDeps exOutput exBatch = (exOutput1, Inr [exReqsPoint 6 2]) \<and>
   keyed (tsdb exOutput) \<and>
   (\<exists>seen groups.
      distinct seen \<and> (\<forall>s. s \<in> set seen \<longleftrightarrow> advanced (tsdb exOutput) (tsdb exOutput1) s) \<and>
      [exReqsPoint 6 2] = concat groups \<and>
      list_all2 (\<lambda>s g. \<exists>swm. tsdb exOutput1 s = Some swm \<and> Series swm = s \<and>
          MapPrompb exDeps swm = Inr g \<and>
          (\<forall>ts \<in> set g. length (Samples ts) + length (Histograms ts) = 1)) seen groups)"
proof -
  have k: "keyed (tsdb exOutput)" by (simp add: keyed_def exOutput_def)
  from one_encoding_per_advanced_identity[OF exBatch_convert k]
  obtain seen groups where
    a: "distinct seen" "\<forall>s. s \<in> set seen \<longleftrightarrow> advanced (tsdb exOutput) (tsdb exOutput1) s"
    "[exReqsPoint 6 2] = concat groups" and
    l: "list_all2 (\<lambda>s g. \<exists>swm. tsdb exOutput1 s = Some swm \<and> Series swm = s \<and>
               MapPrompb exDeps swm = Inr g \<and>
               (\<forall>ts \<in> set g.
                  length (Samples ts) + length (Histograms ts) = 1 \<and>
                  (\<forall>p \<in> set (Samples ts). Timestamp p = UnixMilli (Latest swm)) \<and>
                  (\<forall>h \<in> set (Histograms ts). HTimestamp h = UnixMilli (Latest swm))) \<and>
               (\<forall>swm0. tsdb exOutput s = Some swm0 \<longrightarrow>
                  Latest swm0 < Latest swm \<and>
                  (fitsInt64 ((Latest swm0 - unixEpoch) div 1000000) \<and>
                   fitsInt64 ((Latest swm - unixEpoch) div 1000000) \<longrightarrow>
                   UnixMilli (Latest swm0) < UnixMilli (Latest swm))) \<and>
               (Type (Metric s) \<in> {Counter, Gauge, Rate} \<longrightarrow>
                  (\<exists>v. g = [\<lparr>Labels = MapSeries exDeps s [],
                              Samples = [\<lparr>PbValue = v, Timestamp = UnixMilli (Latest swm)\<rparr>],
                              Histograms = []\<rparr>])) \<and>
               (Type (Metric s) = Trend \<longrightarrow>
                  (\<forall>tsr vals. Measure swm = ExtendedTrendSink tsr vals \<longrightarrow>
                     map Labels g = map (\<lambda>kv. MapSeries exDeps s (fst kv)) tsr) \<and>
                  (\<forall>m vals. Measure swm = NativeHistogramSink m vals \<longrightarrow>
                     (\<exists>h. g = [\<lparr>Labels = MapSeries exDeps s [], Samples = [],
                                 Histograms = [h]\<rparr>]))))
             seen groups"
    by blast
  have "list_all2 (\<lambda>s g. \<exists>swm. tsdb exOutput1 s = Some swm \<and> Series swm = s \<and>
          MapPrompb exDeps swm = Inr g \<and>
          (\<forall>ts \<in> set g. length (Samples ts) + length (Histograms ts) = 1)) seen groups"
    by (rule list_all2_mono[OF l]) blast
  with a have "\<exists>seen groups.
      distinct seen \<and> (\<forall>s. s \<in> set seen \<longleftrightarrow> advanced (tsdb exOutput) (tsdb exOutput1) s) \<and>
      [exReqsPoint 6 2] = concat groups \<and>
      list_all2 (\<lambda>s g. \<exists>swm. tsdb exOutput1 s = Some swm \<and> Series swm = s \<and>
          MapPrompb exDeps swm = Inr g \<and>
          (\<forall>ts \<in> set g. length (Samples ts) + length (Histograms ts) = 1)) seen groups"
    by blast
  with exBatch_convert k show ?thesis by blast
qed

subsection \<open>The flush\<close>

lemma convertToPbSeries_frame:
  "config (fst (convertToPbSeries d ou cs)) = config ou \<and>
   trendStatsResolver (fst (convertToPbSeries d ou cs)) = trendStatsResolver ou \<and>
   buffer (fst (convertToPbSeries d ou cs)) = buffer ou \<and>
   logger (fst (convertToPbSeries d ou cs)) = logger ou \<and>
   client (fst (convertToPbSeries d ou cs)) = client ou"
  using addSamples_frame[of d "(ou, [])" "concat cs"] by (simp add: convertToPbSeries_fst)


lemma flush_buffer: "buffer (fst (flush d took ou)) = []"
proof (cases "buffer ou")
  case Nil
  then show ?thesis by (simp add: flush_def flushDeferred_def logEntry_def Let_def)
next
  case (Cons c cs)
  obtain ou1 r where cv: "convertToPbSeries d (ou\<lparr>buffer := []\<rparr>) (buffer ou) = (ou1, r)"
    by (cases "convertToPbSeries d (ou\<lparr>buffer := []\<rparr>) (buffer ou)")
  from convertToPbSeries_frame[of d "ou\<lparr>buffer := []\<rparr>" "buffer ou"] cv
  have "buffer ou1 = []" by simp
  with Cons cv show ?thesis
    by (auto simp: flush_def flushDeferred_def logEntry_def Let_def
        split: sum.splits option.splits)
qed

text \<open>
  Claim C5. A flush that drains zero sample containers returns without a panic, hands
  nothing to the transport (the batches handed to \<open>client.Store\<close> are the same as before,
  and the result does not depend on the collaborators at all), leaves the series table
  unchanged, and no identity advanced.
\<close>

theorem empty_flush_skips:
  assumes "buffer ou = []"
  shows "snd (flush d took ou) = None \<and>
         client (fst (flush d took ou)) = client ou \<and>
         flush d took ou = flush d' took ou \<and>
         tsdb (fst (flush d took ou)) = tsdb ou \<and>
         (\<forall>s. \<not> advanced (tsdb ou) (tsdb (fst (flush d took ou))) s)"
  using assms
  by (auto simp: flush_def flushDeferred_def logEntry_def advanced_def Let_def
      split: option.splits)

theorem empty_flush_skips_witness:
  "buffer exOutput1 = [] \<and>
   snd (flush exDeps 1000 exOutput1) = None \<and>
   client (fst (flush exDeps 1000 exOutput1)) = [] \<and>
   flush exDeps 1000 exOutput1 = flush exFailingDeps 1000 exOutput1 \<and>
   tsdb (fst (flush exDeps 1000 exOutput1)) = [exReqs \<mapsto> exReqsState 6 2000000] \<and>
   \<not> advanced (tsdb exOutput1) (tsdb (fst (flush exDeps 1000 exOutput1))) exReqs"
proof -
  have h: "buffer exOutput1 = []" by (simp add: exOutput1_def exOutput_def)
  have c: "client exOutput1 = []" "tsdb exOutput1 = [exReqs \<mapsto> exReqsState 6 2000000]"
    by (simp_all add: exOutput1_def exOutput_def)
  note r = empty_flush_skips[OF h, of exDeps 1000 exFailingDeps, unfolded c]
  from r have "\<not> advanced (tsdb exOutput1) (tsdb (fst (flush exDeps 1000 exOutput1))) exReqs"
    unfolding c by blast
  with r h show ?thesis by blast
qed

text \<open>The conversion does not consult the transport.\<close>

lemma newSeriesWithMeasure_Store:
  "newSeriesWithMeasure (d\<lparr>Store := f\<rparr>) s b tsr = newSeriesWithMeasure d s b tsr"
  by (simp add: newSeriesWithMeasure_def newExtendedTrendSink_def Let_def)

lemma addSample_Store: "addSample (d\<lparr>Store := f\<rparr>) st x = addSample d st x"
  unfolding addSample_def newSeriesWithMeasure_Store by (rule refl)

lemma addSamples_Store: "addSamples (d\<lparr>Store := f\<rparr>) st xs = addSamples d st xs"
  by (induction xs arbitrary: st) (simp_all add: addSample_Store split: sum.splits)

lemma MapPrompb_Store: "MapPrompb (d\<lparr>Store := f\<rparr>) swm = MapPrompb d swm"
  by (simp add: MapPrompb_def mapMonoSeries_def trendMapPrompb_def Let_def split: Sink.splits)

lemma mapSeen_Store: "mapSeen (d\<lparr>Store := f\<rparr>) ou seen = mapSeen d ou seen"
  by (induction seen) (simp_all add: MapPrompb_Store split: option.splits sum.splits)

lemma convertToPbSeries_Store:
  "convertToPbSeries (d\<lparr>Store := f\<rparr>) ou cs = convertToPbSeries d ou cs"
  by (simp add: convertToPbSeries_def addContainers_concat addSamples_Store mapSeen_Store
      split: prod.splits option.splits)

lemma flushDeferred_logger:
  "logger (flushDeferred took nts ou) =
     logger ou @
       [if PushInterval (config ou) < took then slowFlushWarning nts took (PushInterval (config ou))
        else \<lparr>level = DebugLevel, withFields = [(''nts'', IntField nts), (''took'', DurationField took)],
              message = ''Successful flushed time series to remote write endpoint'', args = []\<rparr>]"
  by (simp add: flushDeferred_def logEntry_def slowFlushWarning_def Let_def)

lemma flushDeferred_frame:
  "tsdb (flushDeferred took nts ou) = tsdb ou \<and> client (flushDeferred took nts ou) = client ou \<and>
   buffer (flushDeferred took nts ou) = buffer ou \<and> config (flushDeferred took nts ou) = config ou \<and>
   trendStatsResolver (flushDeferred took nts ou) = trendStatsResolver ou"
  by (simp add: flushDeferred_def logEntry_def Let_def)

text \<open>What a flush with a non-empty buffer does once the conversion has returned a
  batch.\<close>

lemma flush_converted:
  assumes "buffer ou \<noteq> []"
    and "convertToPbSeries d (ou\<lparr>buffer := []\<rparr>) (buffer ou) = (ou1, Inr batch)"
  shows "flush d took ou =
           (flushDeferred took (int (length batch))
              ((case Store d batch of
                  Some err \<Rightarrow> logEntry ErrorLevel [(''error'', ErrorField err)]
                                ''Failed to send the time series data to the endpoint'' []
                | None \<Rightarrow> (\<lambda>ou. ou))
                 ((logEntry DebugLevel [(''nts'', IntField (int (length batch)))]
                     ''Converted samples to Prometheus TimeSeries'' [] ou1)
                  \<lparr>client := client ou1 @ [batch]\<rparr>)),
            None)"
  using assms
  by (cases "buffer ou") (auto simp: flush_def Let_def logEntry_def split: option.splits)

text \<open>
  Claim C8. When \<open>client.Store\<close> reports a failure for the batch of a cycle, the flush
  returns without a panic; the error is logged at error level; the transport was invoked
  once, with that batch; the series table is the one the aggregation of the cycle left;
  and the output after the flush is, but for the log, the output that the same flush leaves
  when the delivery succeeds: nothing of the batch is kept for a retry.
\<close>

theorem store_failure_contained:
  assumes "buffer ou \<noteq> []"
    and "convertToPbSeries d (ou\<lparr>buffer := []\<rparr>) (buffer ou) = (ou1, Inr batch)"
    and "Store d batch = Some err"
  shows "snd (flush d took ou) = None \<and>
         (\<exists>before after.
            logger (fst (flush d took ou)) = logger ou @ before @ [storeErrorEntry err] @ after) \<and>
         client (fst (flush d took ou)) = client ou @ [batch] \<and>
         tsdb (fst (flush d took ou)) = tsdb ou1 \<and>
         buffer (fst (flush d took ou)) = [] \<and>
         fst (flush d took ou) =
           (fst (flush (d\<lparr>Store := (\<lambda>b. None)\<rparr>) took ou))
             \<lparr>logger := logger (fst (flush d took ou))\<rparr>"
proof -
  have fr: "logger ou1 = logger ou" "client ou1 = client ou" "config ou1 = config ou"
    using convertToPbSeries_frame[of d "ou\<lparr>buffer := []\<rparr>" "buffer ou"] assms(2) by simp_all
  have cv': "convertToPbSeries (d\<lparr>Store := (\<lambda>b. None)\<rparr>) (ou\<lparr>buffer := []\<rparr>) (buffer ou) =
               (ou1, Inr batch)"
    using assms(2) convertToPbSeries_Store[where d = d and f = "\<lambda>b. None"] by simp
  have f: "flush d took ou =
             (flushDeferred took (int (length batch))
                (logEntry ErrorLevel [(''error'', ErrorField err)]
                   ''Failed to send the time series data to the endpoint'' []
                   ((logEntry DebugLevel [(''nts'', IntField (int (length batch)))]
                       ''Converted samples to Prometheus TimeSeries'' [] ou1)
                    \<lparr>client := client ou1 @ [batch]\<rparr>)), None)"
    using flush_converted[OF assms(1,2), of took] assms(3) by simp
  have g: "flush (d\<lparr>Store := (\<lambda>b. None)\<rparr>) took ou =
             (flushDeferred took (int (length batch))
                ((logEntry DebugLevel [(''nts'', IntField (int (length batch)))]
                       ''Converted samples to Prometheus TimeSeries'' [] ou1)
                    \<lparr>client := client ou1 @ [batch]\<rparr>), None)"
    using flush_converted[OF assms(1) cv', of took] by simp
  have 1: "snd (flush d took ou) = None" by (simp add: f)
  have 2: "\<exists>before after.
            logger (fst (flush d took ou)) = logger ou @ before @ [storeErrorEntry err] @ after"
    by (rule exI[of _ "[\<lparr>level = DebugLevel,
                          withFields = [(''nts'', IntField (int (length batch)))],
                          message = ''Converted samples to Prometheus TimeSeries'',
                          args = []\<rparr>]"])
       (simp add: f flushDeferred_logger fr logEntry_def storeErrorEntry_def)
  have 3: "client (fst (flush d took ou)) = client ou @ [batch]"
    by (simp add: f flushDeferred_frame logEntry_def fr)
  have 4: "tsdb (fst (flush d took ou)) = tsdb ou1"
    by (simp add: f flushDeferred_frame logEntry_def)
  have 5: "buffer (fst (flush d took ou)) = []" by (rule flush_buffer)
  have 6: "fst (flush d took ou) =
           (fst (flush (d\<lparr>Store := (\<lambda>b. None)\<rparr>) took ou))
             \<lparr>logger := logger (fst (flush d took ou))\<rparr>"
    by (simp add: f g flushDeferred_def logEntry_def Let_def)
  from 1 2 3 4 5 6 show ?thesis by blast
qed

lemma exBuffered_convert:
  "convertToPbSeries exFailingDeps (exBuffered\<lparr>buffer := []\<rparr>) (buffer exBuffered) =
     (exOutput1, Inr [exReqsPoint 6 2])"
proof -
  have "exBuffered\<lparr>buffer := []\<rparr> = exOutput" "buffer exBuffered = exBatch"
    by (simp_all add: exBuffered_def exOutput_def)
  then show ?thesis
    by (simp add: exFailingDeps_def convertToPbSeries_Store exBatch_convert)
qed

theorem store_failure_contained_witness:
  "buffer exBuffered \<noteq> [] \<and>
   convertToPbSeries exFailingDeps (exBuffered\<lparr>buffer := []\<rparr>) (buffer exBuffered) =
     (exOutput1, Inr [exReqsPoint 6 2]) \<and>
   Store exFailingDeps [exReqsPoint 6 2] = Some (CollaboratorError ''server returned 500'') \<and>
   snd (flush exFailingDeps 1000 exBuffered) = None \<and>
   (\<exists>before after.
      logger (fst (flush exFailingDeps 1000 exBuffered)) =
        before @ [storeErrorEntry (CollaboratorError ''server returned 500'')] @ after) \<and>
   client (fst (flush exFailingDeps 1000 exBuffered)) = [[exReqsPoint 6 2]] \<and>
   tsdb (fst (flush exFailingDeps 1000 exBuffered)) = [exReqs \<mapsto> exReqsState 6 2000000]"
proof -
  have a: "buffer exBuffered \<noteq> []" by (simp add: exBuffered_def exBatch_def)
  have c: "Store exFailingDeps [exReqsPoint 6 2] = Some (CollaboratorError ''server returned 500'')"
    by (simp add: exFailingDeps_def)
  have e: "logger exBuffered = []" "client exBuffered = []"
    "tsdb exOutput1 = [exReqs \<mapsto> exReqsState 6 2000000]"
    by (simp_all add: exBuffered_def exOutput_def exOutput1_def)
  note r = store_failure_contained[OF a exBuffered_convert c, of 1000, unfolded e]
  from r have "\<exists>before after.
      logger (fst (flush exFailingDeps 1000 exBuffered)) =
        before @ [storeErrorEntry (CollaboratorError ''server returned 500'')] @ after"
    by simp
  with r a c exBuffered_convert show ?thesis by simp
qed

lemma flush_logger:
  "\<exists>before nts.
     logger (fst (flush d took ou)) =
       logger ou @ before @ [last (logger (flushDeferred took nts ou))] \<and>
     (\<forall>e \<in> set before. level e \<noteq> WarnLevel)"
proof (cases "buffer ou")
  case Nil
  show ?thesis
    by (rule exI[of _ "[\<lparr>level = DebugLevel, withFields = [],
                          message = ''no buffered samples, skip the flushing operation'',
                          args = []\<rparr>]"], rule exI[of _ 0])
       (simp add: Nil flush_def flushDeferred_logger logEntry_def Let_def)
next
  case (Cons c cs)
  obtain ou1 r where cv: "convertToPbSeries d (ou\<lparr>buffer := []\<rparr>) (buffer ou) = (ou1, r)"
    by (cases "convertToPbSeries d (ou\<lparr>buffer := []\<rparr>) (buffer ou)")
  have fr: "logger ou1 = logger ou" "config ou1 = config ou"
    using convertToPbSeries_frame[of d "ou\<lparr>buffer := []\<rparr>" "buffer ou"] cv by simp_all
  have ne: "buffer ou \<noteq> []" using Cons by simp
  show ?thesis
  proof (cases r)
    case (Inl p)
    with cv Cons have "flush d took ou = (flushDeferred took 0 ou1, Some p)"
      by (simp add: flush_def Let_def)
    then show ?thesis
      by (intro exI[of _ "[]"] exI[of _ 0]) (simp add: flushDeferred_logger fr)
  next
    case (Inr batch)
    show ?thesis
    proof (cases "Store d batch")
      case None
      with flush_converted[OF ne cv[unfolded Inr], of took] show ?thesis
        by (intro exI[of _ "[\<lparr>level = DebugLevel,
                          withFields = [(''nts'', IntField (int (length batch)))],
                          message = ''Converted samples to Prometheus TimeSeries'',
                          args = []\<rparr>]"] exI[of _ "int (length batch)"])
           (simp add: flushDeferred_logger logEntry_def fr)
    next
      case (Some err)
      with flush_converted[OF ne cv[unfolded Inr], of took] show ?thesis
        by (intro exI[of _ "[\<lparr>level = DebugLevel,
                          withFields = [(''nts'', IntField (int (length batch)))],
                          message = ''Converted samples to Prometheus TimeSeries'',
                          args = []\<rparr>, storeErrorEntry err]"] exI[of _ "int (length batch)"])
           (simp add: flushDeferred_logger logEntry_def fr storeErrorEntry_def)
    qed
  qed
qed

text \<open>
  Claim C9. Every flush execution appends its log entries to the log, and among them
  there is a warning exactly when the elapsed time that the deferred function measures
  exceeds the configured push interval: then there is exactly one, the warning that the
  flush took longer than the flush period and that some samples may be dropped, with the
  elapsed time and the interval as its arguments; otherwise there is none. This holds
  whichever way the flush ends (skipped, delivered, delivery failed, or aborted by a
  panic).
\<close>

theorem slow_flush_warns:
  "\<exists>new. logger (fst (flush d took ou)) = logger ou @ new \<and>
     (PushInterval (config ou) < took \<longrightarrow>
        (\<exists>nts. filter (\<lambda>e. level e = WarnLevel) new =
                 [slowFlushWarning nts took (PushInterval (config ou))])) \<and>
     (\<not> PushInterval (config ou) < took \<longrightarrow> filter (\<lambda>e. level e = WarnLevel) new = [])"
proof -
  from flush_logger[of d took ou] obtain before nts where
    l: "logger (fst (flush d took ou)) =
          logger ou @ before @ [last (logger (flushDeferred took nts ou))]" and
    b: "\<forall>e \<in> set before. level e \<noteq> WarnLevel" by blast
  have f: "filter (\<lambda>e. level e = WarnLevel) before = []" using b by (simp add: filter_empty_conv)
  show ?thesis
  proof (rule exI[of _ "before @ [last (logger (flushDeferred took nts ou))]"], intro conjI impI)
    show "logger (fst (flush d took ou)) =
            logger ou @ before @ [last (logger (flushDeferred took nts ou))]" by (rule l)
  next
    assume "PushInterval (config ou) < took"
    then show "\<exists>nts'. filter (\<lambda>e. level e = WarnLevel)
                 (before @ [last (logger (flushDeferred took nts ou))]) =
               [slowFlushWarning nts' took (PushInterval (config ou))]"
      by (intro exI[of _ nts]) (simp add: f flushDeferred_logger slowFlushWarning_def)
  next
    assume "\<not> PushInterval (config ou) < took"
    then show "filter (\<lambda>e. level e = WarnLevel)
                 (before @ [last (logger (flushDeferred took nts ou))]) = []"
      by (simp add: f flushDeferred_logger)
  qed
qed

theorem slow_flush_warns_witness:
  "PushInterval (config exOutput1) < 6000000000 \<and>
   (\<exists>new nts. logger (fst (flush exDeps 6000000000 exOutput1)) = logger exOutput1 @ new \<and>
      filter (\<lambda>e. level e = WarnLevel) new = [slowFlushWarning nts 6000000000 5000000000]) \<and>
   \<not> PushInterval (config exOutput1) < 1000 \<and>
   (\<exists>new. logger (fst (flush exDeps 1000 exOutput1)) = logger exOutput1 @ new \<and>
      filter (\<lambda>e. level e = WarnLevel) new = [])"
proof -
  have i: "PushInterval (config exOutput1) = 5000000000"
    by (simp add: exOutput1_def exOutput_def exConfig_def)
  have a: "\<exists>new nts. logger (fst (flush exDeps 6000000000 exOutput1)) = logger exOutput1 @ new \<and>
      filter (\<lambda>e. level e = WarnLevel) new = [slowFlushWarning nts 6000000000 5000000000]"
    using slow_flush_warns[of exDeps 6000000000 exOutput1] unfolding i by auto
  have b: "\<exists>new. logger (fst (flush exDeps 1000 exOutput1)) = logger exOutput1 @ new \<and>
      filter (\<lambda>e. level e = WarnLevel) new = []"
    using slow_flush_warns[of exDeps 1000 exOutput1] unfolding i by auto
  from a b show ?thesis by (simp add: i)
qed

subsection \<open>Unrecognised metric kinds\<close>

lemma newSeriesWithMeasure_unknown:
  assumes "Type (Metric s) \<notin> {Counter, Gauge, Rate, Trend}"
  shows "newSeriesWithMeasure d s b tsr = Inl (UnsupportedMetricType (Type (Metric s)))"
  using assms by (simp add: newSeriesWithMeasure_def Let_def)

lemma addSamples_unknown:
  assumes "x \<in> set xs" and "tsdb (fst st) (TimeSeries x) = None"
    and "Type (Metric (TimeSeries x)) \<notin> {Counter, Gauge, Rate, Trend}"
  shows "\<exists>p. snd (addSamples d st xs) = Some p"
  using assms(1,2)
proof (induction xs arbitrary: st)
  case Nil
  then show ?case by simp
next
  case (Cons y ys)
  show ?case
  proof (cases "addSample d st y")
    case (Inl p)
    then show ?thesis by simp
  next
    case (Inr st1)
    have ne: "TimeSeries y \<noteq> TimeSeries x"
    proof
      assume e: "TimeSeries y = TimeSeries x"
      with Cons.prems(2) newSeriesWithMeasure_unknown[OF assms(3)]
      have "addSample d st y = Inl (UnsupportedMetricType (Type (Metric (TimeSeries x))))"
        by (simp add: addSample_def Let_def)
      with Inr show False by simp
    qed
    then have "x \<in> set ys" using Cons.prems(1) by auto
    moreover have "tsdb (fst st1) (TimeSeries x) = None"
      using Inr ne Cons.prems(2)
      by (auto simp: addSample_def Let_def split: option.splits sum.splits if_splits)
    ultimately have "\<exists>p. snd (addSamples d st1 ys) = Some p" by (rule Cons.IH)
    with Inr show ?thesis by simp
  qed
qed

lemma flush_panics:
  assumes "snd (addSamples d (ou\<lparr>buffer := []\<rparr>, []) (concat (buffer ou))) = Some p"
  shows "snd (flush d took ou) = Some p"
proof -
  have ne: "buffer ou \<noteq> []" using assms by (cases "buffer ou") auto
  then obtain c cs where b: "buffer ou = c # cs" by (cases "buffer ou") auto
  obtain st where r: "addSamples d (ou\<lparr>buffer := []\<rparr>, []) (concat (buffer ou)) = (st, Some p)"
    using assms by (cases "addSamples d (ou\<lparr>buffer := []\<rparr>, []) (concat (buffer ou))") auto
  obtain ou1 seen where st: "st = (ou1, seen)" by (cases st)
  from r st have "convertToPbSeries d (ou\<lparr>buffer := []\<rparr>) (buffer ou) = (ou1, Inl p)"
    by (simp add: convertToPbSeries_def addContainers_concat)
  then show ?thesis
    using b by (simp add: flush_def Let_def)
qed

text \<open>
  Claim C7. For a metric kind outside Counter, Gauge, Rate and Trend the sink factory
  \<open>newSeriesWithMeasure\<close> panics and the encoder \<open>MapPrompb\<close> panics; neither returns a
  value. The panic is not swallowed: a flush whose drained samples include one of such a
  kind, for an identity that the table does not hold, ends in a panic.
\<close>

theorem unrecognized_kind_panics:
  assumes "ty \<notin> {Counter, Gauge, Rate, Trend}"
  shows "(Type (Metric s) = ty \<longrightarrow>
            newSeriesWithMeasure d s b tsr = Inl (UnsupportedMetricType ty)) \<and>
         (Type (Metric (Series swm)) = ty \<longrightarrow>
            MapPrompb d swm = Inl (UnrecognizedMetricType (Name (Metric (Series swm))) ty)) \<and>
         (x \<in> set (concat (buffer ou)) \<and> Type (Metric (TimeSeries x)) = ty \<and>
          tsdb ou (TimeSeries x) = None \<longrightarrow> (\<exists>p. snd (flush d took ou) = Some p))"
proof (intro conjI impI)
  assume "Type (Metric s) = ty"
  with assms newSeriesWithMeasure_unknown[of s d b tsr]
  show "newSeriesWithMeasure d s b tsr = Inl (UnsupportedMetricType ty)" by simp
next
  assume "Type (Metric (Series swm)) = ty"
  with assms show "MapPrompb d swm = Inl (UnrecognizedMetricType (Name (Metric (Series swm))) ty)"
    by (simp add: MapPrompb_def Let_def)
next
  assume a: "x \<in> set (concat (buffer ou)) \<and> Type (Metric (TimeSeries x)) = ty \<and>
             tsdb ou (TimeSeries x) = None"
  then have "\<exists>p. snd (addSamples d (ou\<lparr>buffer := []\<rparr>, []) (concat (buffer ou))) = Some p"
    using assms addSamples_unknown[of x "concat (buffer ou)" "(ou\<lparr>buffer := []\<rparr>, [])" d]
    by simp
  then show "\<exists>p. snd (flush d took ou) = Some p" using flush_panics by blast
qed

theorem unrecognized_kind_panics_witness:
  "(7::int) \<notin> {Counter, Gauge, Rate, Trend} \<and>
   Type (Metric exUnknown) = 7 \<and>
   newSeriesWithMeasure exDeps exUnknown False [] = Inl (UnsupportedMetricType 7) \<and>
   MapPrompb exDeps \<lparr>Series = exUnknown, Measure = CounterSink 0, Latest = 0\<rparr> =
     Inl (UnrecognizedMetricType ''mystery'' 7) \<and>
   exSample exUnknown 1700000 1 \<in>
     set (concat (buffer (exOutput\<lparr>buffer := [[exSample exUnknown 1700000 1]]\<rparr>))) \<and>
   (\<exists>p. snd (flush exDeps 1000 (exOutput\<lparr>buffer := [[exSample exUnknown 1700000 1]]\<rparr>)) = Some p)"
proof -
  have h: "(7::int) \<notin> {Counter, Gauge, Rate, Trend}"
    by (simp add: Counter_def Gauge_def Rate_def Trend_def)
  have t: "Type (Metric exUnknown) = 7" "Name (Metric exUnknown) = ''mystery''"
    by (simp_all add: exUnknown_def exSeries_def)
  have m: "exSample exUnknown 1700000 1 \<in>
     set (concat (buffer (exOutput\<lparr>buffer := [[exSample exUnknown 1700000 1]]\<rparr>)))" by simp
  have n: "Type (Metric (TimeSeries (exSample exUnknown 1700000 1))) = 7"
    "tsdb (exOutput\<lparr>buffer := [[exSample exUnknown 1700000 1]]\<rparr>)
       (TimeSeries (exSample exUnknown 1700000 1)) = None"
    by (simp_all add: exSample_def exOutput_def t)
  note r = unrecognized_kind_panics[OF h, of exUnknown exDeps False "[]"
      "\<lparr>Series = exUnknown, Measure = CounterSink 0, Latest = 0\<rparr>"
      "exSample exUnknown 1700000 1" "exOutput\<lparr>buffer := [[exSample exUnknown 1700000 1]]\<rparr>"
      1000]
  from r t have 1: "newSeriesWithMeasure exDeps exUnknown False [] = Inl (UnsupportedMetricType 7)"
    by blast
  from r t have 2: "MapPrompb exDeps \<lparr>Series = exUnknown, Measure = CounterSink 0, Latest = 0\<rparr> =
     Inl (UnrecognizedMetricType ''mystery'' 7)" by simp
  from r m n have 3: "\<exists>p. snd (flush exDeps 1000
      (exOutput\<lparr>buffer := [[exSample exUnknown 1700000 1]]\<rparr>)) = Some p" by blast
  from h t 1 2 m 3 show ?thesis by blast
qed

subsection \<open>The trend statistics resolvers\<close>

lemma copyExcludingSum_eq:
  "copyExcludingSum stats (acc, b) =
     (acc @ filter (\<lambda>s. s \<noteq> ''sum'') stats, b \<or> ''sum'' \<in> set stats)"
  by (induction stats arbitrary: acc b) auto

lemma getResolvers_Inl:
  "getResolvers rc stats res = Inl err \<Longrightarrow> \<exists>stat \<in> set stats. rc stat = Some err"
  by (induction stats arbitrary: res) (auto split: option.splits)

lemma getResolvers_fails:
  "\<exists>stat \<in> set stats. rc stat \<noteq> None \<Longrightarrow> \<exists>err. getResolvers rc stats res = Inl err"
  by (induction stats arbitrary: res) (auto split: option.splits)

lemma getResolvers_succeeds:
  "\<forall>stat \<in> set stats. rc stat = None \<Longrightarrow> \<exists>r. getResolvers rc stats res = Inr r"
  by (induction stats arbitrary: res) auto

lemma getResolvers_map_of:
  "getResolvers rc stats res = Inr r \<Longrightarrow>
     map_of r = (\<lambda>k. if k \<in> set stats then Some (Column k) else map_of res k)"
proof (induction stats arbitrary: res)
  case Nil
  then show ?case by simp
next
  case (Cons stat stats)
  then have "getResolvers rc stats (AList.update stat (Column stat) res) = Inr r"
    by (auto split: option.splits)
  from Cons.IH[OF this] show ?case by (auto simp: update_conv' fun_eq_iff)
qed

lemma slice_butlast: "drop 2 (take (length s - 1) s) = butlast (drop 2 s)"
proof -
  have "length s - 1 - 2 = length s - 2 - 1" by simp
  then show ?thesis by (simp only: butlast_conv_take drop_take length_drop)
qed

lemma statKeyOf_Inr:
  "statKeyOf stat = Inr key \<Longrightarrow> key = specStatKey stat"
  by (auto simp: statKeyOf_def specStatKey_def removeDots_def slice_butlast[unfolded One_nat_def]
      split: if_splits)

lemma statKeyOf_Inl: "statKeyOf stat = Inl p \<longleftrightarrow> stat = ''p('' \<and> p = SliceBoundsOutOfRange"
proof -
  have "HasPrefix stat ''p('' \<and> length stat \<le> 2 \<longleftrightarrow> stat = ''p(''"
    by (cases stat rule: list.exhaust; cases "tl stat"; cases "tl (tl stat)")
       (auto simp: HasPrefix_def)
  then show ?thesis by (auto simp: statKeyOf_def split: if_splits)
qed

lemma storeResolvers_Inl:
  "storeResolvers rs tsr = Inl p \<Longrightarrow> ''p('' \<in> fst ` set rs"
proof (induction rs arbitrary: tsr)
  case Nil
  then show ?case by simp
next
  case (Cons a rs)
  obtain stat fn where a: "a = (stat, fn)" by (cases a)
  show ?case
  proof (cases "statKeyOf stat")
    case (Inl q)
    then show ?thesis using statKeyOf_Inl[of stat q] a by simp
  next
    case (Inr key)
    with Cons.prems a have "storeResolvers rs (AList.update key fn tsr) = Inl p" by simp
    from Cons.IH[OF this] show ?thesis by simp
  qed
qed

text \<open>Every key stored is the key of some entry ranged over, with that entry's resolver,
  and the key of every entry ranged over is stored.\<close>

lemma storeResolvers_Inr:
  assumes "storeResolvers rs tsr = Inr t"
  shows "(\<forall>key r. map_of t key = Some r \<longrightarrow>
            map_of tsr key = Some r \<or> (\<exists>stat. (stat, r) \<in> set rs \<and> key = specStatKey stat)) \<and>
         (\<forall>stat \<in> fst ` set rs. specStatKey stat \<in> fst ` set t) \<and>
         fst ` set tsr \<subseteq> fst ` set t"
  using assms
proof (induction rs arbitrary: tsr)
  case Nil
  then show ?case by simp
next
  case (Cons a rs)
  obtain stat fn where a: "a = (stat, fn)" by (cases a)
  from Cons.prems a obtain key where
    k: "statKeyOf stat = Inr key" and
    run: "storeResolvers rs (AList.update key fn tsr) = Inr t"
    by (auto split: sum.splits)
  have key: "key = specStatKey stat" using k by (rule statKeyOf_Inr)
  note ih = Cons.IH[OF run]
  have 1: "\<forall>k r. map_of t k = Some r \<longrightarrow>
            map_of tsr k = Some r \<or> (\<exists>stat. (stat, r) \<in> set (a # rs) \<and> k = specStatKey stat)"
  proof (intro allI impI)
    fix k r assume m: "map_of t k = Some r"
    with ih have "map_of (AList.update key fn tsr) k = Some r \<or>
                  (\<exists>stat. (stat, r) \<in> set rs \<and> k = specStatKey stat)" by blast
    then show "map_of tsr k = Some r \<or> (\<exists>stat. (stat, r) \<in> set (a # rs) \<and> k = specStatKey stat)"
      using a key by (auto simp: update_conv' split: if_splits)
  qed
  have sub: "fst ` set (AList.update key fn tsr) \<subseteq> fst ` set t" using ih by blast
  have 2: "\<forall>stat \<in> fst ` set (a # rs). specStatKey stat \<in> fst ` set t"
    using ih sub a key by (auto simp: dom_update)
  have 3: "fst ` set tsr \<subseteq> fst ` set t" using sub by (auto simp: dom_update)
  from 1 2 3 show ?case by blast
qed

lemma getResolvers_distinct:
  "getResolvers rc stats res = Inr r \<Longrightarrow> distinct (map fst res) \<Longrightarrow> distinct (map fst r)"
proof (induction stats arbitrary: res)
  case Nil
  then show ?case by simp
next
  case (Cons stat stats)
  then have "getResolvers rc stats (AList.update stat (Column stat) res) = Inr r"
    by (auto split: option.splits)
  from Cons.IH[OF this] Cons.prems(2) show ?case by (simp add: distinct_update)
qed

lemma specStatKey_percentile:
  "specStatKey (''p('' @ x @ '')'') = ''p'' @ filter (\<lambda>ch. ch \<noteq> CHR ''.'') x"
  by (simp add: specStatKey_def HasPrefix_def butlast_append)

lemma specStatKey_other: "\<not> HasPrefix stat ''p('' \<Longrightarrow> specStatKey stat = stat"
  by (simp add: specStatKey_def)

text \<open>The table that the second loop of \<open>setTrendStatsResolver\<close> ranges over.\<close>

lemma requested_resolvers:
  assumes "getResolvers rc (filter (\<lambda>s. s \<noteq> ''sum'') stats) [] = Inr r0"
  defines "rs \<equiv> (if ''sum'' \<in> set stats then AList.update ''sum'' SumStat r0 else r0)"
  shows "distinct (map fst rs)"
    and "map_of rs = (\<lambda>k. if k \<in> set stats then Some (resolverOf k) else None)"
proof -
  have d0: "distinct (map fst r0)" using getResolvers_distinct[OF assms(1)] by simp
  then show "distinct (map fst rs)" by (simp add: rs_def distinct_update)
  have m0: "map_of r0 = (\<lambda>k. if k \<in> set stats \<and> k \<noteq> ''sum'' then Some (Column k) else None)"
    using getResolvers_map_of[OF assms(1)] by (auto simp: fun_eq_iff)
  show "map_of rs = (\<lambda>k. if k \<in> set stats then Some (resolverOf k) else None)"
    by (auto simp: rs_def m0 update_conv' resolverOf_def fun_eq_iff)
qed

lemma setTrendStatsResolver_unfold:
  "setTrendStatsResolver c ou stats =
     (case getResolvers (resolveColumn c) (filter (\<lambda>s. s \<noteq> ''sum'') stats) [] of
        Inl err \<Rightarrow> Err err
      | Inr r0 \<Rightarrow>
          (case storeResolvers
                  (if ''sum'' \<in> set stats then AList.update ''sum'' SumStat r0 else r0) [] of
             Inl p \<Rightarrow> Panic p
           | Inr tsr \<Rightarrow> Ok (ou\<lparr>trendStatsResolver := tsr\<rparr>)))"
  unfolding setTrendStatsResolver_def GetResolversForTrendColumns_def Let_def
    copyExcludingSum_eq append_Nil prod.case
  by (simp only: simp_thms)

lemma setTrendStatsResolver_Ok:
  assumes "setTrendStatsResolver c ou stats = Ok ou'"
  shows "(\<forall>key r. map_of (trendStatsResolver ou') key = Some r \<longrightarrow>
            (\<exists>stat \<in> set stats. key = specStatKey stat \<and> r = resolverOf stat)) \<and>
         (\<forall>stat \<in> set stats. specStatKey stat \<in> fst ` set (trendStatsResolver ou'))"
proof -
  define g where "g = getResolvers (resolveColumn c) (filter (\<lambda>s. s \<noteq> ''sum'') stats) []"
  obtain r0 where g: "g = Inr r0"
  proof (cases g)
    case (Inl err)
    with assms have False
      unfolding setTrendStatsResolver_unfold g_def[symmetric] by simp
    then show ?thesis ..
  next
    case (Inr r0)
    then show ?thesis by (rule that)
  qed
  define rs where "rs = (if ''sum'' \<in> set stats then AList.update ''sum'' SumStat r0 else r0)"
  have u: "setTrendStatsResolver c ou stats =
             (case storeResolvers rs [] of
                Inl p \<Rightarrow> Panic p
              | Inr tsr \<Rightarrow> Ok (ou\<lparr>trendStatsResolver := tsr\<rparr>))"
    by (simp only: setTrendStatsResolver_unfold g[unfolded g_def] sum.case rs_def)
  have s: "storeResolvers rs [] = Inr (trendStatsResolver ou')"
  proof (cases "storeResolvers rs []")
    case (Inl p)
    with assms u have False by simp
    then show ?thesis ..
  next
    case (Inr tsr)
    with assms u have "ou' = ou\<lparr>trendStatsResolver := tsr\<rparr>" by simp
    with Inr show ?thesis by simp
  qed
  have d: "distinct (map fst rs)"
    and m: "map_of rs = (\<lambda>k. if k \<in> set stats then Some (resolverOf k) else None)"
    using requested_resolvers[OF g[unfolded g_def]] unfolding rs_def by blast+
  have mem: "\<And>stat r. (stat, r) \<in> set rs \<longleftrightarrow> stat \<in> set stats \<and> r = resolverOf stat"
  proof -
    fix stat r
    have "(stat, r) \<in> set rs \<longleftrightarrow> map_of rs stat = Some r"
      using d by (simp add: map_of_eq_Some_iff)
    then show "(stat, r) \<in> set rs \<longleftrightarrow> stat \<in> set stats \<and> r = resolverOf stat"
      unfolding m by auto
  qed
  have keys: "fst ` set rs = set stats"
  proof
    show "fst ` set rs \<subseteq> set stats" using mem by auto
    show "set stats \<subseteq> fst ` set rs"
    proof
      fix x assume "x \<in> set stats"
      then have "(x, resolverOf x) \<in> set rs" using mem by simp
      then show "x \<in> fst ` set rs" by force
    qed
  qed
  have a: "\<forall>key r. map_of (trendStatsResolver ou') key = Some r \<longrightarrow>
              (\<exists>stat. (stat, r) \<in> set rs \<and> key = specStatKey stat)"
    using storeResolvers_Inr[OF s] by simp
  have b: "\<forall>stat \<in> fst ` set rs. specStatKey stat \<in> fst ` set (trendStatsResolver ou')"
    using storeResolvers_Inr[OF s] by blast
  from a b show ?thesis unfolding keys mem by blast
qed

text \<open>
  Claim C10. When \<open>setTrendStatsResolver\<close> succeeds, a requested statistic of the form
  \<open>p(x)\<close> has the key \<open>p\<close> followed by \<open>x\<close> without its dots in the resolver table, and a
  requested statistic that does not start with \<open>p(\<close> has its literal name as key. Every
  entry of the table is the key of a requested statistic with the resolver of that
  statistic, and a requested statistic whose key no other requested statistic shares has
  its own resolver stored under its key.
\<close>

theorem percentile_keys:
  assumes "setTrendStatsResolver c ou stats = Ok ou'"
  shows "(\<forall>x. ''p('' @ x @ '')'' \<in> set stats \<longrightarrow>
            ''p'' @ filter (\<lambda>ch. ch \<noteq> CHR ''.'') x \<in> fst ` set (trendStatsResolver ou')) \<and>
         (\<forall>stat \<in> set stats. \<not> HasPrefix stat ''p('' \<longrightarrow>
            stat \<in> fst ` set (trendStatsResolver ou')) \<and>
         (\<forall>key r. map_of (trendStatsResolver ou') key = Some r \<longrightarrow>
            (\<exists>stat \<in> set stats. key = specStatKey stat \<and> r = resolverOf stat)) \<and>
         (\<forall>stat \<in> set stats.
            (\<forall>other \<in> set stats. specStatKey other = specStatKey stat \<longrightarrow> other = stat) \<longrightarrow>
            map_of (trendStatsResolver ou') (specStatKey stat) = Some (resolverOf stat))"
proof -
  note r = setTrendStatsResolver_Ok[OF assms]
  from r have ent: "\<And>key r. map_of (trendStatsResolver ou') key = Some r \<Longrightarrow>
            \<exists>stat \<in> set stats. key = specStatKey stat \<and> r = resolverOf stat" by blast
  from r have keys: "\<And>stat. stat \<in> set stats \<Longrightarrow>
            specStatKey stat \<in> fst ` set (trendStatsResolver ou')" by blast
  have 1: "\<forall>x. ''p('' @ x @ '')'' \<in> set stats \<longrightarrow>
            ''p'' @ filter (\<lambda>ch. ch \<noteq> CHR ''.'') x \<in> fst ` set (trendStatsResolver ou')"
    using keys specStatKey_percentile by metis
  have 2: "\<forall>stat \<in> set stats. \<not> HasPrefix stat ''p('' \<longrightarrow>
            stat \<in> fst ` set (trendStatsResolver ou')"
    using keys specStatKey_other by metis
  have 4: "\<forall>stat \<in> set stats.
            (\<forall>other \<in> set stats. specStatKey other = specStatKey stat \<longrightarrow> other = stat) \<longrightarrow>
            map_of (trendStatsResolver ou') (specStatKey stat) = Some (resolverOf stat)"
  proof (intro ballI impI)
    fix stat
    assume s: "stat \<in> set stats"
      and u: "\<forall>other \<in> set stats. specStatKey other = specStatKey stat \<longrightarrow> other = stat"
    from keys[OF s] obtain r where m: "map_of (trendStatsResolver ou') (specStatKey stat) = Some r"
      by (metis domIff dom_map_of_conv_image_fst not_Some_eq)
    from ent[OF m] u have "r = resolverOf stat" by metis
    with m show "map_of (trendStatsResolver ou') (specStatKey stat) = Some (resolverOf stat)"
      by simp
  qed
  from 1 2 ent 4 show ?thesis by blast
qed

lemma exStats_run:
  "setTrendStatsResolver (exCtor []) exOutput [''p(95)'', ''p(0.95)'', ''avg'', ''sum''] =
     Ok (exOutput\<lparr>trendStatsResolver :=
           [(''p95'', Column ''p(95)''), (''p095'', Column ''p(0.95)''),
            (''avg'', Column ''avg''), (''sum'', SumStat)]\<rparr>)"
  by (simp add: setTrendStatsResolver_def GetResolversForTrendColumns_def exCtor_def
        exResolve_def HasPrefix_def statKeyOf_def removeDots_def Let_def)

theorem percentile_keys_witness:
  "setTrendStatsResolver (exCtor []) exOutput [''p(95)'', ''p(0.95)'', ''avg'', ''sum''] =
     Ok (exOutput\<lparr>trendStatsResolver :=
           [(''p95'', Column ''p(95)''), (''p095'', Column ''p(0.95)''),
            (''avg'', Column ''avg''), (''sum'', SumStat)]\<rparr>) \<and>
   ''p95'' \<in> fst ` set [(''p95'', Column ''p(95)''), (''p095'', Column ''p(0.95)''),
                        (''avg'', Column ''avg''), (''sum'', SumStat)] \<and>
   ''p095'' \<in> fst ` set [(''p95'', Column ''p(95)''), (''p095'', Column ''p(0.95)''),
                        (''avg'', Column ''avg''), (''sum'', SumStat)] \<and>
   ''avg'' \<in> fst ` set [(''p95'', Column ''p(95)''), (''p095'', Column ''p(0.95)''),
                        (''avg'', Column ''avg''), (''sum'', SumStat)] \<and>
   ''sum'' \<in> fst ` set [(''p95'', Column ''p(95)''), (''p095'', Column ''p(0.95)''),
                        (''avg'', Column ''avg''), (''sum'', SumStat)]"
proof -
  have a: "''p('' @ ''95'' @ '')'' \<in> set [''p(95)'', ''p(0.95)'', ''avg'', ''sum'']"
    "''p('' @ ''0.95'' @ '')'' \<in> set [''p(95)'', ''p(0.95)'', ''avg'', ''sum'']"
    by simp_all
  from percentile_keys[OF exStats_run] a
  have 1: "''p'' @ filter (\<lambda>ch. ch \<noteq> CHR ''.'') ''95'' \<in>
             fst ` set (trendStatsResolver (exOutput\<lparr>trendStatsResolver :=
               [(''p95'', Column ''p(95)''), (''p095'', Column ''p(0.95)''),
                (''avg'', Column ''avg''), (''sum'', SumStat)]\<rparr>))"
    and 2: "''p'' @ filter (\<lambda>ch. ch \<noteq> CHR ''.'') ''0.95'' \<in>
             fst ` set (trendStatsResolver (exOutput\<lparr>trendStatsResolver :=
               [(''p95'', Column ''p(95)''), (''p095'', Column ''p(0.95)''),
                (''avg'', Column ''avg''), (''sum'', SumStat)]\<rparr>))"
    by blast+
  from 1 2 exStats_run show ?thesis by simp
qed

lemma setTrendStatsResolver_Err:
  assumes "\<exists>stat \<in> set stats. stat \<noteq> ''sum'' \<and> resolveColumn c stat \<noteq> None"
  shows "\<exists>err stat. setTrendStatsResolver c ou stats = Err err \<and> stat \<in> set stats \<and>
           resolveColumn c stat = Some err"
proof -
  define copy where "copy = filter (\<lambda>s. s \<noteq> ''sum'') stats"
  from assms obtain bad where "bad \<in> set stats" "bad \<noteq> ''sum''" "resolveColumn c bad \<noteq> None"
    by blast
  then have "\<exists>stat \<in> set copy. resolveColumn c stat \<noteq> None"
    unfolding copy_def by (intro bexI[of _ bad]) simp_all
  from getResolvers_fails[OF this, of "[]"] obtain err where
    e: "getResolvers (resolveColumn c) copy [] = Inl err" by blast
  from getResolvers_Inl[OF e] obtain stat where
    st: "stat \<in> set copy" "resolveColumn c stat = Some err" by blast
  from st(1) have "stat \<in> set stats" unfolding copy_def by simp
  moreover have "setTrendStatsResolver c ou stats = Err err"
    by (simp only: setTrendStatsResolver_unfold e[unfolded copy_def] sum.case)
  ultimately show ?thesis using st(2) by blast
qed

lemma setTrendStatsResolver_succeeds:
  assumes "\<forall>stat \<in> set stats. stat \<noteq> ''sum'' \<longrightarrow> resolveColumn c stat = None \<and> stat \<noteq> ''p(''"
  shows "\<exists>tsr. setTrendStatsResolver c ou stats = Ok (ou\<lparr>trendStatsResolver := tsr\<rparr>)"
proof -
  note A = assms[rule_format]
  define copy where "copy = filter (\<lambda>s. s \<noteq> ''sum'') stats"
  have "\<forall>stat \<in> set copy. resolveColumn c stat = None"
  proof
    fix stat assume "stat \<in> set copy"
    then have "stat \<in> set stats \<and> stat \<noteq> ''sum''"
      unfolding copy_def set_filter by (rule CollectD)
    then have "stat \<in> set stats" and "stat \<noteq> ''sum''"
      by (rule conjunct1, rule conjunct2)
    from A[OF this] show "resolveColumn c stat = None" by (rule conjunct1)
  qed
  from getResolvers_succeeds[OF this, of "[]"] obtain r0 where
    g: "getResolvers (resolveColumn c) copy [] = Inr r0" by blast
  define rs where "rs = (if ''sum'' \<in> set stats then AList.update ''sum'' SumStat r0 else r0)"
  have m: "map_of rs = (\<lambda>k. if k \<in> set stats then Some (resolverOf k) else None)"
    using requested_resolvers(2)[OF g[unfolded copy_def]] unfolding rs_def .
  have ne: "''p('' \<noteq> ''sum''" by simp
  have notin: "''p('' \<notin> set stats"
  proof
    assume "''p('' \<in> set stats"
    from A[OF this ne] have "''p('' \<noteq> ''p(''" by (rule conjunct2)
    then show False by (rule notE) (rule refl)
  qed
  have "map_of rs ''p('' = None" unfolding m using notin by (rule if_not_P)
  then have np: "''p('' \<notin> fst ` set rs" by (rule iffD1[OF map_of_eq_None_iff])
  obtain tsr where s: "storeResolvers rs [] = Inr tsr"
  proof (cases "storeResolvers rs []")
    case (Inl p)
    show ?thesis by (rule notE[OF np storeResolvers_Inl[OF Inl]])
  next
    case (Inr tsr)
    then show ?thesis by (rule that)
  qed
  have "setTrendStatsResolver c ou stats = Ok (ou\<lparr>trendStatsResolver := tsr\<rparr>)"
    by (simp only: setTrendStatsResolver_unfold g[unfolded copy_def] sum.case
          s[unfolded rs_def])
  then show ?thesis by (rule exI)
qed
text \<open>
  Claim C6. Once the configuration and the write client have been built, \<open>New\<close> returns
  an error, and no output, when a configured trend statistic other than the literal
  \<open>sum\<close> cannot be resolved (the error is the one of the resolver for a requested name);
  and \<open>New\<close> returns the output when every configured trend statistic is \<open>sum\<close> or
  resolves. (A resolved name that is exactly \<open>p(\<close> would make the key's slice expression
  panic; the resolver of the k6 library rejects that name, and the second part excludes
  it.)
\<close>

theorem unresolvable_stat_fails_construction:
  assumes "GetConsolidatedConfig c params = Inr cfg"
    and "RemoteConfig c cfg = Inr clientConfig"
    and "NewWriteClient c (URL cfg) clientConfig = None"
  shows "((\<exists>stat \<in> set (TrendStats cfg). stat \<noteq> ''sum'' \<and> resolveColumn c stat \<noteq> None) \<longrightarrow>
            (\<exists>err stat. New c params = Err err \<and> stat \<in> set (TrendStats cfg) \<and>
               resolveColumn c stat = Some err)) \<and>
         ((\<forall>stat \<in> set (TrendStats cfg). stat \<noteq> ''sum'' \<longrightarrow>
              resolveColumn c stat = None \<and> stat \<noteq> ''p('') \<longrightarrow>
            (\<exists>ou. New c params = Ok ou \<and> config ou = cfg \<and> tsdb ou = Map.empty \<and>
               buffer ou = [] \<and> client ou = []))"
proof (intro conjI impI)
  assume a: "\<exists>stat \<in> set (TrendStats cfg). stat \<noteq> ''sum'' \<and> resolveColumn c stat \<noteq> None"
  then have ne: "TrendStats cfg \<noteq> []" by auto
  from setTrendStatsResolver_Err[OF a] assms ne
  show "\<exists>err stat. New c params = Err err \<and> stat \<in> set (TrendStats cfg) \<and>
          resolveColumn c stat = Some err"
    by (simp add: New_def Let_def)
next
  assume a: "\<forall>stat \<in> set (TrendStats cfg). stat \<noteq> ''sum'' \<longrightarrow>
               resolveColumn c stat = None \<and> stat \<noteq> ''p(''"
  show "\<exists>ou. New c params = Ok ou \<and> config ou = cfg \<and> tsdb ou = Map.empty \<and>
          buffer ou = [] \<and> client ou = []"
  proof (cases "TrendStats cfg = []")
    case True
    with assms show ?thesis by (simp add: New_def Let_def)
  next
    case False
    from setTrendStatsResolver_succeeds[OF a,
        of "\<lparr>buffer = [], config = cfg, logger = [], tsdb = Map.empty,
             trendStatsResolver = [], client = []\<rparr>"]
    obtain tsr where
      "setTrendStatsResolver c
         \<lparr>buffer = [], config = cfg, logger = [], tsdb = Map.empty,
          trendStatsResolver = [], client = []\<rparr> (TrendStats cfg) =
       Ok (\<lparr>buffer = [], config = cfg, logger = [], tsdb = Map.empty,
            trendStatsResolver = [], client = []\<rparr>\<lparr>trendStatsResolver := tsr\<rparr>)" by blast
    with assms False show ?thesis by (simp add: New_def Let_def)
  qed
qed

theorem unresolvable_stat_fails_construction_witness:
  "(\<exists>stat \<in> set [''p(95)'', ''bogus'']. stat \<noteq> ''sum'' \<and> exResolve stat \<noteq> None) \<and>
   (\<exists>err. New (exCtor [''p(95)'', ''bogus'']) exParams = Err err) \<and>
   exResolve ''p(95)'' = None \<and> exResolve ''avg'' = None \<and>
   (\<exists>ou. New (exCtor [''p(95)'', ''sum'', ''avg'']) exParams = Ok ou)"
proof -
  have b: "\<exists>stat \<in> set [''p(95)'', ''bogus'']. stat \<noteq> ''sum'' \<and> exResolve stat \<noteq> None"
    by (simp add: exResolve_def HasPrefix_def)
  have g: "exResolve ''p(95)'' = None" "exResolve ''avg'' = None"
    by (simp_all add: exResolve_def HasPrefix_def)
  have c1: "GetConsolidatedConfig (exCtor [''p(95)'', ''bogus'']) exParams =
              Inr (exConfig\<lparr>TrendStats := [''p(95)'', ''bogus'']\<rparr>)"
    "RemoteConfig (exCtor [''p(95)'', ''bogus'']) (exConfig\<lparr>TrendStats := [''p(95)'', ''bogus'']\<rparr>) =
       Inr ()"
    "NewWriteClient (exCtor [''p(95)'', ''bogus''])
       (URL (exConfig\<lparr>TrendStats := [''p(95)'', ''bogus'']\<rparr>)) () = None"
    "resolveColumn (exCtor [''p(95)'', ''bogus'']) = exResolve"
    by (simp_all add: exCtor_def)
  have c2: "GetConsolidatedConfig (exCtor [''p(95)'', ''sum'', ''avg'']) exParams =
              Inr (exConfig\<lparr>TrendStats := [''p(95)'', ''sum'', ''avg'']\<rparr>)"
    "RemoteConfig (exCtor [''p(95)'', ''sum'', ''avg''])
       (exConfig\<lparr>TrendStats := [''p(95)'', ''sum'', ''avg'']\<rparr>) = Inr ()"
    "NewWriteClient (exCtor [''p(95)'', ''sum'', ''avg''])
       (URL (exConfig\<lparr>TrendStats := [''p(95)'', ''sum'', ''avg'']\<rparr>)) () = None"
    "resolveColumn (exCtor [''p(95)'', ''sum'', ''avg'']) = exResolve"
    by (simp_all add: exCtor_def)
  from unresolvable_stat_fails_construction[OF c1(1,2,3), THEN conjunct1] b
  have 1: "\<exists>err. New (exCtor [''p(95)'', ''bogus'']) exParams = Err err"
    unfolding c1(4) by auto
  have ok: "\<forall>stat \<in> set (TrendStats (exConfig\<lparr>TrendStats := [''p(95)'', ''sum'', ''avg'']\<rparr>)).
              stat \<noteq> ''sum'' \<longrightarrow> exResolve stat = None \<and> stat \<noteq> ''p(''"
    using g by simp
  from unresolvable_stat_fails_construction[OF c2(1,2,3), THEN conjunct2] ok
  have 2: "\<exists>ou. New (exCtor [''p(95)'', ''sum'', ''avg'']) exParams = Ok ou"
    unfolding c2(4) by blast
  from b g 1 2 show ?thesis by blast
qed

subsection \<open>Sinks over a run of flush cycles\<close>




















end
